theory Spec2Isabelle
  imports Main "HOL-Library.Sublist"
begin

text \<open>
  A model of the two feed services of the repository, WikiNews and Readhub: the extraction
  of categories and items from the markup of Wikipedia's current-events page, the link
  annotations, the cleaning of markup, and the fetch with its single-slot cache. Strings,
  regular expressions and dates follow the semantics of the JavaScript runtime; the
  upstream request, the \<open>Common\<close> module and the time zone of the runtime are
  parameters. Logging to the console is left out.
\<close>

section \<open>JavaScript strings\<close>

text \<open>
  A JavaScript string is a sequence of UTF-16 code units, and the regular expressions of
  the services carry no \<open>u\<close> flag, so they work on code units. A code unit is modelled
  as a natural number (below 65536 in a real string), a string as a list of them.
  \<open>js\<close> turns an ASCII literal of the source into such a list.
\<close>

type_synonym jschar = nat
type_synonym jstring = "jschar list"

definition js :: "string \<Rightarrow> jstring" where
  "js s = map of_char s"

text \<open>The three characters of the source outside ASCII.\<close>

definition bullet :: jschar where "bullet = 8226"
definition ndash :: jschar where "ndash = 8211"
definition mdash :: jschar where "mdash = 8212"

text \<open>
  \<open>\s\<close> of a regular expression and \<open>String.prototype.trim\<close> use the same set:
  ECMAScript's WhiteSpace and LineTerminator code points.
\<close>

definition isSpace :: "jschar \<Rightarrow> bool" where
  "isSpace c \<longleftrightarrow>
     c = 9 \<or> c = 10 \<or> c = 11 \<or> c = 12 \<or> c = 13 \<or> c = 32 \<or> c = 160 \<or> c = 5760 \<or>
     (8192 \<le> c \<and> c \<le> 8202) \<or> c = 8232 \<or> c = 8233 \<or> c = 8239 \<or> c = 8287 \<or>
     c = 12288 \<or> c = 65279"

definition isLineTerminator :: "jschar \<Rightarrow> bool" where
  "isLineTerminator c \<longleftrightarrow> c = 10 \<or> c = 13 \<or> c = 8232 \<or> c = 8233"

definition trim :: "jstring \<Rightarrow> jstring" where
  "trim s = rev (dropWhile isSpace (rev (dropWhile isSpace s)))"

text \<open>\<open>hay.indexOf(needle)\<close>: the first position of the needle, or -1.\<close>

fun indexOf_from :: "jstring \<Rightarrow> int \<Rightarrow> jstring \<Rightarrow> int" where
  "indexOf_from needle i [] = (if needle = [] then i else -1)"
| "indexOf_from needle i (x # xs) =
     (if prefix needle (x # xs) then i else indexOf_from needle (i + 1) xs)"

definition indexOf :: "jstring \<Rightarrow> jstring \<Rightarrow> int" where
  "indexOf hay needle = indexOf_from needle 0 hay"

text \<open>
  \<open>s.substring(a, b)\<close> and \<open>s.substring(a)\<close>: both ends are clamped to the string and
  swapped when they come in the wrong order.
\<close>

definition clampIndex :: "jstring \<Rightarrow> int \<Rightarrow> nat" where
  "clampIndex s i = (if i < 0 then 0 else min (nat i) (length s))"

definition substring :: "jstring \<Rightarrow> int \<Rightarrow> int \<Rightarrow> jstring" where
  "substring s a b =
     (let lo = min (clampIndex s a) (clampIndex s b);
          hi = max (clampIndex s a) (clampIndex s b)
      in take (hi - lo) (drop lo s))"

definition substringFrom :: "jstring \<Rightarrow> int \<Rightarrow> jstring" where
  "substringFrom s a = drop (clampIndex s a) s"

text \<open>\<open>parts.join(sep)\<close>.\<close>

fun join :: "jstring \<Rightarrow> jstring list \<Rightarrow> jstring" where
  "join sep [] = []"
| "join sep [x] = x"
| "join sep (x # y # ys) = x @ sep @ join sep (y # ys)"

section \<open>Regular expressions\<close>

text \<open>
  The patterns of the services use literals, character classes under \<open>*\<close>, \<open>*?\<close> and
  \<open>+\<close>, one optional non-capturing group and capture groups. The matcher is the
  backtracking matcher of ECMAScript, written with continuations as the language
  specification does: a greedy quantifier tries one more character before it tries the
  rest of the pattern, a lazy one tries the rest of the pattern first.
\<close>

datatype cset =
    AnyChar         \<comment> \<open>\<open>[\s\S]\<close>\<close>
  | Dot             \<comment> \<open>\<open>.\<close>: anything but a line terminator\<close>
  | Space           \<comment> \<open>\<open>\s\<close>\<close>
  | Except jschar   \<comment> \<open>\<open>[^c]\<close>\<close>

fun cmatch :: "cset \<Rightarrow> jschar \<Rightarrow> bool" where
  "cmatch AnyChar c = True"
| "cmatch Dot c = (\<not> isLineTerminator c)"
| "cmatch Space c = isSpace c"
| "cmatch (Except d) c = (c \<noteq> d)"

datatype rx =
    Lit jstring     \<comment> \<open>a sequence of literal characters\<close>
  | Star cset       \<comment> \<open>\<open>c*\<close>\<close>
  | StarLazy cset   \<comment> \<open>\<open>c*?\<close>\<close>
  | Plus cset       \<comment> \<open>\<open>c+\<close>\<close>
  | Opt rx          \<comment> \<open>\<open>(?:r)?\<close>\<close>
  | Grp rx          \<comment> \<open>\<open>(r)\<close>, a capture group\<close>
  | Seq "rx list"

type_synonym 'r cont = "jstring \<Rightarrow> jstring list \<Rightarrow> 'r option"

fun star_greedy :: "cset \<Rightarrow> 'r cont \<Rightarrow> 'r cont" where
  "star_greedy c k [] caps = k [] caps"
| "star_greedy c k (x # xs) caps =
     (if cmatch c x
      then (case star_greedy c k xs caps of
              Some res \<Rightarrow> Some res
            | None \<Rightarrow> k (x # xs) caps)
      else k (x # xs) caps)"

fun star_lazy :: "cset \<Rightarrow> 'r cont \<Rightarrow> 'r cont" where
  "star_lazy c k [] caps = k [] caps"
| "star_lazy c k (x # xs) caps =
     (case k (x # xs) caps of
        Some res \<Rightarrow> Some res
      | None \<Rightarrow> if cmatch c x then star_lazy c k xs caps else None)"

text \<open>
  \<open>rmatch r k s caps\<close> matches \<open>r\<close> at the start of \<open>s\<close> and hands the rest of the
  input and the captures so far to the continuation \<open>k\<close>. The captures are listed in
  the order of the groups (no group of the services is nested or quantified).
\<close>

fun rmatch :: "rx \<Rightarrow> 'r cont \<Rightarrow> 'r cont" where
  "rmatch (Lit l) k =
     (\<lambda>s caps. if prefix l s then k (drop (length l) s) caps else None)"
| "rmatch (Star c) k = star_greedy c k"
| "rmatch (StarLazy c) k = star_lazy c k"
| "rmatch (Plus c) k =
     (\<lambda>s caps. case s of
        [] \<Rightarrow> None
      | x # xs \<Rightarrow> if cmatch c x then star_greedy c k xs caps else None)"
| "rmatch (Opt r) k =
     (\<lambda>s caps. case rmatch r k s caps of
        Some res \<Rightarrow> Some res
      | None \<Rightarrow> k s caps)"
| "rmatch (Grp r) k =
     (\<lambda>s caps. rmatch r (\<lambda>s' caps'. k s' (caps' @ [take (length s - length s') s])) s caps)"
| "rmatch (Seq []) k = k"
| "rmatch (Seq (r # rs)) k = rmatch r (rmatch (Seq rs) k)"

text \<open>
  One match: the text skipped before it, the matched text, the captures, and the input
  after it. \<open>search\<close> tries every start position from left to right, as
  \<open>RegExp.prototype.exec\<close> does from \<open>lastIndex\<close>.
\<close>

type_synonym rmatch_result = "jstring \<times> jstring \<times> jstring list \<times> jstring"

definition match_here :: "rx \<Rightarrow> jstring \<Rightarrow> (jstring \<times> jstring list) option" where
  "match_here r s = rmatch r (\<lambda>rest caps. Some (rest, caps)) s []"

fun search :: "rx \<Rightarrow> jstring \<Rightarrow> jstring \<Rightarrow> rmatch_result option" where
  "search r pre [] =
     (case match_here r [] of
        Some (rest, caps) \<Rightarrow> Some (pre, [], caps, rest)
      | None \<Rightarrow> None)"
| "search r pre (x # xs) =
     (case match_here r (x # xs) of
        Some (rest, caps) \<Rightarrow>
          Some (pre, take (length (x # xs) - length rest) (x # xs), caps, rest)
      | None \<Rightarrow> search r (pre @ [x]) xs)"

text \<open>
  All matches of a pattern with the \<open>g\<close> flag, each search starting where the match
  before it ended, and the text after the last match. Every pattern of the services
  consumes at least one character and so never matches the empty string; an empty match
  at the start of the remaining input ends the iteration here.
\<close>

fun matches_g :: "rx \<Rightarrow> jstring \<Rightarrow> (jstring \<times> jstring \<times> jstring list) list \<times> jstring" where
  "matches_g r s =
     (case search r [] s of
        None \<Rightarrow> ([], s)
      | Some (pre, m, caps, rest) \<Rightarrow>
          if length rest < length s
          then (case matches_g r rest of (ms, after) \<Rightarrow> ((pre, m, caps) # ms, after))
          else ([(pre, m, caps)], rest))"

declare matches_g.simps [simp del]

text \<open>
  A pattern that consumes at least one character whenever it matches; for such a pattern
  the iteration above always takes its first branch.
\<close>

fun consumes :: "rx \<Rightarrow> bool" where
  "consumes (Lit l) = (l \<noteq> [])"
| "consumes (Star c) = False"
| "consumes (StarLazy c) = False"
| "consumes (Plus c) = True"
| "consumes (Opt r) = False"
| "consumes (Grp r) = consumes r"
| "consumes (Seq []) = False"
| "consumes (Seq (r # rs)) = (consumes r \<or> consumes (Seq rs))"

text \<open>\<open>s.match(r)\<close> for a global pattern: the matched texts, or null when there is none.\<close>

definition js_match_g :: "rx \<Rightarrow> jstring \<Rightarrow> jstring list option" where
  "js_match_g r s =
     (case map (\<lambda>(pre, m, caps). m) (fst (matches_g r s)) of
        [] \<Rightarrow> None
      | ms \<Rightarrow> Some ms)"

text \<open>
  \<open>s.replace(r, f)\<close> for a global pattern and a callback with side effects: the callback
  gets the state, the matched text and the captures, and returns the replacement and the
  new state. The calls are made from left to right.
\<close>

fun replace_loop ::
  "('st \<Rightarrow> jstring \<Rightarrow> jstring list \<Rightarrow> jstring \<times> 'st) \<Rightarrow> 'st \<Rightarrow>
   (jstring \<times> jstring \<times> jstring list) list \<Rightarrow> jstring \<Rightarrow> jstring \<times> 'st" where
  "replace_loop f st [] after = (after, st)"
| "replace_loop f st ((pre, m, caps) # ms) after =
     (case f st m caps of (rep, st') \<Rightarrow>
        (case replace_loop f st' ms after of (out, st'') \<Rightarrow> (pre @ rep @ out, st'')))"

definition js_replace_cb ::
  "rx \<Rightarrow> ('st \<Rightarrow> jstring \<Rightarrow> jstring list \<Rightarrow> jstring \<times> 'st) \<Rightarrow> 'st \<Rightarrow> jstring \<Rightarrow> jstring \<times> 'st" where
  "js_replace_cb r f st s = (case matches_g r s of (ms, after) \<Rightarrow> replace_loop f st ms after)"

text \<open>
  \<open>s.replace(r, str)\<close> for a global pattern and a replacement string; a replacement
  string with \<open>$1\<close> is given as the function of the captures it denotes.
\<close>

definition js_replace :: "rx \<Rightarrow> (jstring list \<Rightarrow> jstring) \<Rightarrow> jstring \<Rightarrow> jstring" where
  "js_replace r rep s = fst (js_replace_cb r (\<lambda>u m caps. (rep caps, u)) () s)"

text \<open>\<open>s.split(r)\<close> for a pattern without capture groups.\<close>

definition js_split :: "rx \<Rightarrow> jstring \<Rightarrow> jstring list" where
  "js_split r s = (case matches_g r s of (ms, after) \<Rightarrow> map (\<lambda>(pre, m, caps). pre) ms @ [after])"

text \<open>The first capture, the empty string when the list is too short.\<close>

fun cap :: "nat \<Rightarrow> jstring list \<Rightarrow> jstring" where
  "cap n [] = []"
| "cap 0 (c # cs) = c"
| "cap (Suc n) (c # cs) = cap n cs"

section \<open>The WikiNews service: data\<close>

record NewsItem =
  item_text :: jstring

record NewsCategory =
  title :: jstring
  items :: "NewsItem list"

record WikiNewsItem =
  date :: jstring
  news :: "NewsCategory list"
  source_url :: jstring
  updated :: jstring
  updated_at :: int

text \<open>
  A thrown value, as the \<open>catch\<close> blocks read it:
  \<open>error instanceof Error ? error.message : String(error)\<close>.
\<close>

datatype thrown = ErrorObject jstring | OtherValue jstring

fun errorText :: "thrown \<Rightarrow> jstring" where
  "errorText (ErrorObject message) = message"
| "errorText (OtherValue shown) = shown"

section \<open>The WikiNews service: patterns\<close>

definition chr_gt :: jschar where \<open>chr_gt = of_char CHR ''>''\<close>
definition chr_lt :: jschar where \<open>chr_lt = of_char CHR ''<''\<close>
definition chr_quote :: jschar where \<open>chr_quote = 34\<close>

text \<open>\<open>/<div class="current-events-content description">([\s\S]*?)<\/div>/g\<close>\<close>

definition contentDivOpen :: jstring where
  \<open>contentDivOpen = js ''<div class="current-events-content description">''\<close>

definition contentDivRegex :: rx where
  \<open>contentDivRegex = Seq [Lit contentDivOpen, Grp (StarLazy AnyChar), Lit (js ''</div>'')]\<close>

text \<open>\<open>/<p><b>/\<close>\<close>

definition headingMark :: jstring where
  \<open>headingMark = js ''<p><b>''\<close>

definition headingRegex :: rx where
  \<open>headingRegex = Lit headingMark\<close>

text \<open>\<open>/<li>([\s\S]*?)<\/li>/g\<close>\<close>

definition listItemRegex :: rx where
  \<open>listItemRegex = Seq [Lit (js ''<li>''), Grp (StarLazy AnyChar), Lit (js ''</li>'')]\<close>

text \<open>\<open>/<a\s+[^>]*?class="external[^>]*?href="([^"]*)"[^>]*>(.*?)<\/a>/g\<close>\<close>

definition externalLinkRegex :: rx where
  \<open>externalLinkRegex =
     Seq [Lit (js ''<a''), Plus Space, StarLazy (Except chr_gt), Lit (js ''class="external''),
          StarLazy (Except chr_gt), Lit (js ''href="''), Grp (Star (Except chr_quote)),
          Lit (js ''"''), Star (Except chr_gt), Lit (js ''>''), Grp (StarLazy Dot),
          Lit (js ''</a>'')]\<close>

text \<open>\<open>/<a\s+(?:[^>]*?\s+)?href="([^"]*)"[^>]*>(.*?)<\/a>/g\<close>\<close>

definition linkRegex :: rx where
  \<open>linkRegex =
     Seq [Lit (js ''<a''), Plus Space, Opt (Seq [StarLazy (Except chr_gt), Plus Space]),
          Lit (js ''href="''), Grp (Star (Except chr_quote)), Lit (js ''"''),
          Star (Except chr_gt), Lit (js ''>''), Grp (StarLazy Dot), Lit (js ''</a>'')]\<close>

text \<open>The patterns of \<open>#cleanHtml\<close>, in the order of their use.\<close>

definition ulRegex :: rx where
  \<open>ulRegex = Seq [Lit (js ''<ul''), Star (Except chr_gt), Lit (js ''>''),
                  Grp (StarLazy AnyChar), Lit (js ''</ul>'')]\<close>

definition liRegex :: rx where
  \<open>liRegex = Seq [Lit (js ''<li''), Star (Except chr_gt), Lit (js ''>''),
                  Grp (StarLazy AnyChar), Lit (js ''</li>'')]\<close>

definition tagRegex :: rx where
  \<open>tagRegex = Seq [Lit (js ''<''), StarLazy (Except chr_gt), Lit (js ''>'')]\<close>

definition spacesRegex :: rx where
  \<open>spacesRegex = Plus Space\<close>

definition bulletBulletRegex :: rx where
  \<open>bulletBulletRegex = Lit ([bullet] @ js '' '' @ [bullet])\<close>

definition colonBulletRegex :: rx where
  \<open>colonBulletRegex = Lit (js '': '' @ [bullet])\<close>

definition spacesColonRegex :: rx where
  \<open>spacesColonRegex = Seq [Plus Space, Lit (js '':'')]\<close>

definition spacesDotRegex :: rx where
  \<open>spacesDotRegex = Seq [Plus Space, Lit (js ''.'')]\<close>

section \<open>The WikiNews service: extraction\<close>

definition origin :: jstring where
  \<open>origin = js ''https://en.wikipedia.org''\<close>

text \<open>
  The callback of the first \<open>replace\<close> of \<open>#processItemLinks\<close>; the state is the array
  \<open>externalLinks\<close>. An empty string is falsy.
\<close>

definition externalLinkCallback ::
  "jstring list \<Rightarrow> jstring \<Rightarrow> jstring list \<Rightarrow> jstring \<times> jstring list" where
  \<open>externalLinkCallback externalLinks m caps =
     (let href = cap 0 caps; text = cap 1 caps
      in if text \<noteq> [] \<and> href \<noteq> []
         then ([], externalLinks @
                 [(if text \<noteq> [] then text else js ''Source'') @ js '' ('' @ href @ js '')''])
         else ([], externalLinks))\<close>

text \<open>The callback of the second \<open>replace\<close>; the state is the array \<open>links\<close>.\<close>

definition linkCallback ::
  "jstring list \<Rightarrow> jstring \<Rightarrow> jstring list \<Rightarrow> jstring \<times> jstring list" where
  \<open>linkCallback links m caps =
     (let href = cap 0 caps; text = cap 1 caps
      in if href = [] \<or> text = [] then (if text \<noteq> [] then text else [], links)
         else
           let href' = (if prefix (js ''/'') href then origin @ href else href);
               linkEntry = text @ js '' ('' @ href' @ js '')''
           in (text, if linkEntry \<in> set links then links else links @ [linkEntry]))\<close>

definition processItemLinks :: "jstring \<Rightarrow> jstring \<times> jstring list" where
  \<open>processItemLinks html =
     (case js_replace_cb externalLinkRegex externalLinkCallback [] html of
        (htmlWithoutExternals, externalLinks) \<Rightarrow>
          (case js_replace_cb linkRegex linkCallback [] htmlWithoutExternals of
             (processedHtml, links) \<Rightarrow> (processedHtml, links @ externalLinks)))\<close>

text \<open>The two chains of \<open>replace\<close> calls at the end of \<open>#cleanHtml\<close>.\<close>

definition decodeEntities :: "jstring \<Rightarrow> jstring" where
  \<open>decodeEntities t0 =
     (let t1 = js_replace (Lit (js ''&amp;'')) (\<lambda>caps. js ''&'') t0;
          t2 = js_replace (Lit (js ''&lt;'')) (\<lambda>caps. js ''<'') t1;
          t3 = js_replace (Lit (js ''&gt;'')) (\<lambda>caps. js ''>'') t2;
          t4 = js_replace (Lit (js ''&quot;'')) (\<lambda>caps. [chr_quote]) t3;
          t5 = js_replace (Lit (js ''&#39;'')) (\<lambda>caps. [39]) t4;
          t6 = js_replace (Lit (js ''&ndash;'')) (\<lambda>caps. [ndash]) t5;
          t7 = js_replace (Lit (js ''&mdash;'')) (\<lambda>caps. [mdash]) t6
      in js_replace (Lit (js ''&nbsp;'')) (\<lambda>caps. js '' '') t7)\<close>

definition tidySpaces :: "jstring \<Rightarrow> jstring" where
  \<open>tidySpaces t0 =
     (let t1 = js_replace spacesRegex (\<lambda>caps. js '' '') t0;
          t2 = js_replace bulletBulletRegex (\<lambda>caps. [bullet]) t1;
          t3 = js_replace colonBulletRegex (\<lambda>caps. js '': '') t2;
          t4 = js_replace spacesColonRegex (\<lambda>caps. js '':'') t3;
          t5 = js_replace spacesDotRegex (\<lambda>caps. js ''.'') t4
      in trim t5)\<close>

text \<open>
  \<open>#cleanHtml\<close> in its stages: the list markers \<open>': $1'\<close> and \<open>'\<bullet> $1 '\<close>
  (\<open>listMarkers\<close>), the removal of tags, the entities (\<open>decodeEntities\<close>, defined
  above) and the white space (\<open>tidySpaces\<close>, defined above).
\<close>

definition listMarkers :: "jstring \<Rightarrow> jstring" where
  \<open>listMarkers html =
     js_replace liRegex (\<lambda>caps. [bullet] @ js '' '' @ cap 0 caps @ js '' '')
       (js_replace ulRegex (\<lambda>caps. js '': '' @ cap 0 caps) html)\<close>

definition cleanHtml :: "jstring \<Rightarrow> jstring" where
  \<open>cleanHtml html =
     (let processedHtml = listMarkers html;
          text = js_replace tagRegex (\<lambda>caps. []) processedHtml
      in tidySpaces (decodeEntities text))\<close>

text \<open>One turn of the \<open>while\<close> loop of \<open>#extractCategoryItems\<close>, on the capture of a match.\<close>

definition itemStep :: "NewsItem list \<Rightarrow> jstring list \<Rightarrow> NewsItem list" where
  \<open>itemStep acc caps =
     (if cap 0 caps \<noteq> [] then
        (let itemHtml = trim (cap 0 caps)
         in if itemHtml = [] then acc
            else (case processItemLinks itemHtml of (text, links) \<Rightarrow>
              (let cleaned = cleanHtml text;
                   finalText = (if links \<noteq> []
                                then cleaned @ js '' ['' @ join (js '', '') links @ js '']''
                                else cleaned)
               in if trim finalText \<noteq> [] then acc @ [\<lparr>item_text = trim finalText\<rparr>]
                  else acc)))
      else acc)\<close>

definition extractCategoryItems_try :: "jstring \<Rightarrow> thrown + NewsItem list" where
  \<open>extractCategoryItems_try sectionContent =
     (let found = foldl itemStep [] (map (\<lambda>(pre, m, caps). caps)
                                       (fst (matches_g listItemRegex sectionContent)))
      in if found = [] then
           (let plainContent = cleanHtml sectionContent
            in if trim plainContent \<noteq> [] then Inr [\<lparr>item_text = trim plainContent\<rparr>]
               else Inr found)
         else Inr found)\<close>

definition extractCategoryItems :: "jstring \<Rightarrow> jstring \<Rightarrow> NewsItem list" where
  \<open>extractCategoryItems sectionContent categoryTitle =
     (case extractCategoryItems_try sectionContent of
        Inr found \<Rightarrow> found
      | Inl error \<Rightarrow> [\<lparr>item_text = js ''Error parsing items: '' @ errorText error\<rparr>])\<close>

text \<open>One turn of the \<open>for\<close> loop of \<open>#extractNewsContent\<close>, on one section.\<close>

definition sectionStep :: "NewsCategory list \<Rightarrow> jstring \<Rightarrow> NewsCategory list" where
  \<open>sectionStep categories section =
     (let titleEndIndex = indexOf section (js ''</b>'')
      in if titleEndIndex = -1 then categories
         else
           let categoryTitle = trim (substring section 0 titleEndIndex);
               contentStartIndex = indexOf section (js ''</p>'') + 4
           in if contentStartIndex = -1 + 4 then categories
              else
                let sectionContent = substringFrom section contentStartIndex;
                    found = extractCategoryItems sectionContent categoryTitle
                in if found \<noteq> [] then categories @ [\<lparr>title = categoryTitle, items = found\<rparr>]
                   else categories)\<close>

definition singleCategory :: "jstring \<Rightarrow> jstring \<Rightarrow> NewsCategory list" where
  \<open>singleCategory t msg = [\<lparr>title = t, items = [\<lparr>item_text = msg\<rparr>]\<rparr>]\<close>

text \<open>
  The categories collected by the two loops over the sections, before the check for an
  empty result.
\<close>

definition collectCategories :: "jstring \<Rightarrow> jstring list \<Rightarrow> NewsCategory list" where
  \<open>collectCategories section0 sections =
     (let categories0 =
            (if trim section0 \<noteq> [] then
               (let uncategorizedItems = extractCategoryItems section0 (js ''Uncategorized'')
                in if uncategorizedItems \<noteq> []
                   then [\<lparr>title = js ''Uncategorized'', items = uncategorizedItems\<rparr>]
                   else [])
             else [])
      in foldl sectionStep categories0 sections)\<close>

definition extractNewsContent_try :: "jstring \<Rightarrow> thrown + NewsCategory list" where
  \<open>extractNewsContent_try html =
     (case js_match_g contentDivRegex html of
        None \<Rightarrow>
          Inr (singleCategory (js ''Error'') (js ''No news content sections found in the HTML''))
      | Some [] \<Rightarrow>
          Inr (singleCategory (js ''Error'') (js ''No news content sections found in the HTML''))
      | Some (firstContentDiv # others) \<Rightarrow>
          (case js_split headingRegex firstContentDiv of
             section0 # section1 # sections \<Rightarrow>
               (let categories = collectCategories section0 (section1 # sections)
                in if categories = []
                   then Inr (singleCategory (js ''Uncategorized'')
                               (js ''No news items could be parsed from the source''))
                   else Inr categories)
           | short \<Rightarrow>
               Inr (singleCategory (js ''Uncategorized'') (js ''No categories found in content''))))\<close>

definition extractNewsContent :: "jstring \<Rightarrow> NewsCategory list" where
  \<open>extractNewsContent html =
     (case extractNewsContent_try html of
        Inr categories \<Rightarrow> categories
      | Inl error \<Rightarrow>
          singleCategory (js ''Parsing Error'')
            (js ''Error while parsing the news content: '' @ errorText error))\<close>

subsection \<open>The link conversion of \<open>wikinews.module.ts\<close>\<close>

text \<open>
  The other version of the module writes links as markdown. \<open>#convertLinksToMarkdown\<close>
  first rewrites the anchors that do not carry \<open>class="external\<close>, then the external
  ones.
\<close>

definition markdownLinkCallback :: "unit \<Rightarrow> jstring \<Rightarrow> jstring list \<Rightarrow> jstring \<times> unit" where
  \<open>markdownLinkCallback u m caps =
     (let href = cap 0 caps; text = cap 1 caps
      in if sublist (js ''class="external'') m then (m, u)
         else
           let href' = (if prefix (js ''/'') href then origin @ href else href)
           in (js ''['' @ text @ js '']('' @ href' @ js '')'', u))\<close>

definition markdownExternalCallback :: "unit \<Rightarrow> jstring \<Rightarrow> jstring list \<Rightarrow> jstring \<times> unit" where
  \<open>markdownExternalCallback u m caps =
     (js ''[('' @ cap 1 caps @ js '')]('' @ cap 0 caps @ js '')'', u)\<close>

definition convertLinksToMarkdown :: "jstring \<Rightarrow> jstring" where
  \<open>convertLinksToMarkdown html =
     (let result = fst (js_replace_cb linkRegex markdownLinkCallback () html)
      in fst (js_replace_cb externalLinkRegex markdownExternalCallback () result))\<close>

section \<open>The item loop and its pattern object\<close>

text \<open>
  A pattern object carries the index at which its next search starts. A pattern literal
  creates a new object with index 0 each time it is evaluated. \<open>exec\<close> on a global
  pattern searches from \<open>lastIndex\<close>; a match moves \<open>lastIndex\<close> to its end, no match
  sets it back to 0. (\<open>match\<close>, \<open>replace\<close> and \<open>split\<close> set the index to 0 themselves
  before they search, so they are functions of pattern and string, as modelled above.)
\<close>

record RegExp =
  pattern :: rx
  lastIndex :: nat

definition newRegExp :: "rx \<Rightarrow> RegExp" where
  "newRegExp r = \<lparr>pattern = r, lastIndex = 0\<rparr>"

definition exec :: "RegExp \<Rightarrow> jstring \<Rightarrow> jstring list option \<times> RegExp" where
  "exec re s =
     (if lastIndex re > length s then (None, re\<lparr>lastIndex := 0\<rparr>)
      else (case search (pattern re) [] (drop (lastIndex re) s) of
              None \<Rightarrow> (None, re\<lparr>lastIndex := 0\<rparr>)
            | Some (pre, m, caps, rest) \<Rightarrow> (Some caps, re\<lparr>lastIndex := length s - length rest\<rparr>)))"

text \<open>
  The \<open>while\<close> loop of \<open>#extractCategoryItems\<close> with its pattern object as explicit
  state. It need not end for every pattern object (an empty match would be found again
  and again), so not returning is the value \<open>None\<close>.
\<close>

partial_function (option) itemLoop ::
  "RegExp \<Rightarrow> jstring \<Rightarrow> NewsItem list \<Rightarrow> (NewsItem list \<times> RegExp) option" where
  "itemLoop regex sectionContent found =
     (case exec regex sectionContent of
        (None, regex') \<Rightarrow> Some (found, regex')
      | (Some itemMatch, regex') \<Rightarrow> itemLoop regex' sectionContent (itemStep found itemMatch))"

text \<open>
  The extractor run with this loop: \<open>#extractCategoryItems\<close> evaluates its pattern
  literal, runs the loop and falls back to the cleaned section; the callers are as before,
  and a call that does not return makes the caller not return. The \<open>catch\<close> blocks,
  which no operation of the \<open>try\<close> blocks enters, are left out of the run.
\<close>

definition extractCategoryItems_run :: "jstring \<Rightarrow> jstring \<Rightarrow> NewsItem list option" where
  \<open>extractCategoryItems_run sectionContent categoryTitle =
     (case itemLoop (newRegExp listItemRegex) sectionContent [] of
        None \<Rightarrow> None
      | Some (found, regex) \<Rightarrow>
          if found = [] then
            (let plainContent = cleanHtml sectionContent
             in if trim plainContent \<noteq> [] then Some [\<lparr>item_text = trim plainContent\<rparr>]
                else Some found)
          else Some found)\<close>

definition sectionStep_run :: "NewsCategory list \<Rightarrow> jstring \<Rightarrow> NewsCategory list option" where
  \<open>sectionStep_run categories section =
     (let titleEndIndex = indexOf section (js ''</b>'')
      in if titleEndIndex = -1 then Some categories
         else
           let categoryTitle = trim (substring section 0 titleEndIndex);
               contentStartIndex = indexOf section (js ''</p>'') + 4
           in if contentStartIndex = -1 + 4 then Some categories
              else
                (case extractCategoryItems_run (substringFrom section contentStartIndex)
                        categoryTitle of
                   None \<Rightarrow> None
                 | Some found \<Rightarrow>
                     if found \<noteq> [] then Some (categories @ [\<lparr>title = categoryTitle, items = found\<rparr>])
                     else Some categories))\<close>

fun sectionLoop_run :: "NewsCategory list \<Rightarrow> jstring list \<Rightarrow> NewsCategory list option" where
  "sectionLoop_run categories [] = Some categories"
| "sectionLoop_run categories (section # sections) =
     (case sectionStep_run categories section of
        None \<Rightarrow> None
      | Some categories' \<Rightarrow> sectionLoop_run categories' sections)"

definition uncategorized_run :: "jstring \<Rightarrow> NewsCategory list option" where
  \<open>uncategorized_run section0 =
     (if trim section0 \<noteq> [] then
        (case extractCategoryItems_run section0 (js ''Uncategorized'') of
           None \<Rightarrow> None
         | Some uncategorizedItems \<Rightarrow>
             if uncategorizedItems \<noteq> []
             then Some [\<lparr>title = js ''Uncategorized'', items = uncategorizedItems\<rparr>]
             else Some [])
      else Some [])\<close>

definition extractNewsContent_run :: "jstring \<Rightarrow> NewsCategory list option" where
  \<open>extractNewsContent_run html =
     (case js_match_g contentDivRegex html of
        None \<Rightarrow>
          Some (singleCategory (js ''Error'') (js ''No news content sections found in the HTML''))
      | Some [] \<Rightarrow>
          Some (singleCategory (js ''Error'') (js ''No news content sections found in the HTML''))
      | Some (firstContentDiv # others) \<Rightarrow>
          (case js_split headingRegex firstContentDiv of
             section0 # section1 # sections \<Rightarrow>
               (case uncategorized_run section0 of
                  None \<Rightarrow> None
                | Some categories0 \<Rightarrow>
                    (case sectionLoop_run categories0 (section1 # sections) of
                       None \<Rightarrow> None
                     | Some categories \<Rightarrow>
                         if categories = []
                         then Some (singleCategory (js ''Uncategorized'')
                                      (js ''No news items could be parsed from the source''))
                         else Some categories))
           | short \<Rightarrow>
               Some (singleCategory (js ''Uncategorized'') (js ''No categories found in content''))))\<close>

section \<open>Dates of the JavaScript runtime\<close>

text \<open>
  A \<open>Date\<close> holds milliseconds since the epoch. Its local-time getters read the fields of
  the civil date of \<open>t + LocalTZA(t)\<close>, where the offset \<open>LocalTZA\<close> of the runtime's
  time zone is a parameter here. The civil date of a day number is computed in the
  proleptic Gregorian calendar, as ECMAScript's YearFromTime, MonthFromTime and
  DateFromTime do.
\<close>

definition msPerDay :: int where
  "msPerDay = 24 * 60 * 60 * 1000"

definition localDay :: "(int \<Rightarrow> int) \<Rightarrow> int \<Rightarrow> int" where
  "localDay tza t = (t + tza t) div msPerDay"

text \<open>Year, month (1 to 12) and day of the month of a day number (days since 1970-01-01).\<close>

definition civil :: "int \<Rightarrow> int \<times> int \<times> int" where
  "civil d =
     (let z = d + 719468;
          era = z div 146097;
          doe = z - era * 146097;
          yoe = (doe - doe div 1460 + doe div 36524 - doe div 146096) div 365;
          doy = doe - (365 * yoe + yoe div 4 - yoe div 100);
          mp = (5 * doy + 2) div 153;
          dd = doy - (153 * mp + 2) div 5 + 1;
          mm = (if mp < 10 then mp + 3 else mp - 9);
          yy = yoe + era * 400 + (if mm \<le> 2 then 1 else 0)
      in (yy, mm, dd))"

definition getFullYear :: "(int \<Rightarrow> int) \<Rightarrow> int \<Rightarrow> int" where
  "getFullYear tza t = fst (civil (localDay tza t))"

definition getDate :: "(int \<Rightarrow> int) \<Rightarrow> int \<Rightarrow> int" where
  "getDate tza t = snd (snd (civil (localDay tza t)))"

definition monthNames :: "jstring list" where
  \<open>monthNames = map js [''January'', ''February'', ''March'', ''April'', ''May'', ''June'', ''July'',
     ''August'', ''September'', ''October'', ''November'', ''December'']\<close>

text \<open>\<open>toLocaleString('en', { month: 'long' })\<close>\<close>

definition monthLong :: "(int \<Rightarrow> int) \<Rightarrow> int \<Rightarrow> jstring" where
  "monthLong tza t = monthNames ! nat (fst (snd (civil (localDay tza t))) - 1)"

text \<open>An integer in a template string: its decimal digits, with a sign when negative.\<close>

fun digits :: "nat \<Rightarrow> jstring" where
  "digits n = (if n < 10 then [48 + n] else digits (n div 10) @ [48 + n mod 10])"

declare digits.simps [simp del]

definition showInt :: "int \<Rightarrow> jstring" where
  \<open>showInt i = (if i < 0 then js ''-'' @ digits (nat (- i)) else digits (nat i))\<close>

section \<open>The two services: fetching and caching\<close>

text \<open>
  \<open>Common.localeDate\<close> and \<open>Common.localeTime\<close> come from a module that is not part of
  the sources at hand; they are parameters of the model.
\<close>

record Common =
  localeDate :: "int \<Rightarrow> jstring"
  localeTime :: "int \<Rightarrow> jstring"

text \<open>
  What the upstream call does: \<open>fetch(url)\<close> rejects with some value, or resolves to a
  response with a status, whose body \<open>response.text()\<close> yields or fails to read.
  \<open>response.ok\<close> holds for the statuses 200 to 299.
\<close>

datatype upstream = NetworkError thrown | Response int "thrown + jstring"

definition ok :: "int \<Rightarrow> bool" where
  "ok status \<longleftrightarrow> 200 \<le> status \<and> status \<le> 299"

record ServiceWikiNews =
  cache :: "WikiNewsItem option"
  cacheDate :: jstring
  lastFetchTime :: int

definition wikiUrl :: "(int \<Rightarrow> int) \<Rightarrow> int \<Rightarrow> jstring" where
  \<open>wikiUrl tza targetDate =
     js ''https://en.wikipedia.org/wiki/Portal:Current_events/'' @
     showInt (getFullYear tza targetDate) @ js ''_'' @ monthLong tza targetDate @ js ''_'' @
     showInt (getDate tza targetDate)\<close>

definition formattedDate :: "(int \<Rightarrow> int) \<Rightarrow> int \<Rightarrow> jstring" where
  \<open>formattedDate tza targetDate =
     monthLong tza targetDate @ js '' '' @ showInt (getDate tza targetDate) @ js '', '' @
     showInt (getFullYear tza targetDate)\<close>

text \<open>
  The \<open>try\<close> block of \<open>#fetch\<close>: the URL it requests, and either the value thrown or the
  new feed with the updated service.
\<close>

definition wiki_try ::
  "Common \<Rightarrow> (int \<Rightarrow> int) \<Rightarrow> ServiceWikiNews \<Rightarrow> int \<Rightarrow> jstring \<Rightarrow> upstream \<Rightarrow>
   jstring \<times> (thrown + WikiNewsItem \<times> ServiceWikiNews)" where
  \<open>wiki_try common tza this now today up =
     (let targetDate = now - 24 * 60 * 60 * 1000;
          url = wikiUrl tza targetDate
      in (url,
          case up of
            NetworkError e \<Rightarrow> Inl e
          | Response status body \<Rightarrow>
              if \<not> ok status
              then Inl (ErrorObject (js ''Failed to fetch data from Wikipedia: '' @ showInt status))
              else (case body of
                      Inl e \<Rightarrow> Inl e
                    | Inr html \<Rightarrow>
                        (let data = \<lparr>date = formattedDate tza targetDate,
                                     news = extractNewsContent html,
                                     source_url = url,
                                     updated = localeTime common now,
                                     updated_at = now\<rparr>
                         in Inr (data, this\<lparr>cache := Some data, cacheDate := today,
                                            lastFetchTime := now\<rparr>)))))\<close>

text \<open>
  \<open>#fetch\<close> of the WikiNews service at the time \<open>now\<close> gives the feed returned or the
  error thrown, the service afterwards, and the URLs requested upstream. The error of the
  last resort:
\<close>

definition wikiNoCache :: thrown where
  \<open>wikiNoCache = ErrorObject (js ''Failed to fetch Wikipedia news data and no cache available'')\<close>

text \<open>The \<open>try\<close> block with its \<open>catch\<close>: what a fetch does when the cache does not serve.\<close>

definition wiki_refresh ::
  "Common \<Rightarrow> (int \<Rightarrow> int) \<Rightarrow> ServiceWikiNews \<Rightarrow> int \<Rightarrow> jstring \<Rightarrow> upstream \<Rightarrow>
   (thrown + WikiNewsItem) \<times> ServiceWikiNews \<times> jstring list" where
  \<open>wiki_refresh common tza this now today up =
     (case wiki_try common tza this now today up of
        (url, Inr (data, this')) \<Rightarrow> (Inr data, this', [url])
      | (url, Inl error) \<Rightarrow>
          (case cache this of
             Some data \<Rightarrow> (Inr data, this, [url])
           | None \<Rightarrow> (Inl wikiNoCache, this, [url])))\<close>

text \<open>\<open>Common.localeDate(now).replace(/\//g, '-')\<close>, the key of the cache.\<close>

definition wikiToday :: "Common \<Rightarrow> int \<Rightarrow> jstring" where
  \<open>wikiToday common now = js_replace (Lit (js ''/'')) (\<lambda>caps. js ''-'') (localeDate common now)\<close>

definition wiki_fetch ::
  "Common \<Rightarrow> (int \<Rightarrow> int) \<Rightarrow> ServiceWikiNews \<Rightarrow> int \<Rightarrow> upstream \<Rightarrow>
   (thrown + WikiNewsItem) \<times> ServiceWikiNews \<times> jstring list" where
  \<open>wiki_fetch common tza this now up =
     (let today = wikiToday common now
      in case cache this of
           Some data \<Rightarrow>
             if cacheDate this = today then (Inr data, this, [])
             else wiki_refresh common tza this now today up
         | None \<Rightarrow> wiki_refresh common tza this now today up)\<close>

subsection \<open>Readhub\<close>

record ReadhubTopic =
  topic_title :: jstring
  link :: jstring

record ReadhubNewsItem =
  rh_date :: jstring
  rh_news :: "ReadhubTopic list"
  tip :: jstring
  rh_updated :: jstring
  rh_updated_at :: int

record ServiceReadhub =
  rh_cache :: "ReadhubNewsItem option"
  cacheTime :: int

definition cacheDuration :: int where
  "cacheDuration = 30 * 60 * 1000"

text \<open>\<open>/<a\s+[^>]*?href="(\/topic\/[^"]+)"[^>]*?>([^<]+)<\/a>/g\<close>\<close>

definition articlePattern :: rx where
  \<open>articlePattern =
     Seq [Lit (js ''<a''), Plus Space, StarLazy (Except chr_gt), Lit (js ''href="''),
          Grp (Seq [Lit (js ''/topic/''), Plus (Except chr_quote)]), Lit (js ''"''),
          StarLazy (Except chr_gt), Lit (js ''>''), Grp (Plus (Except chr_lt)),
          Lit (js ''</a>'')]\<close>

definition articleStep :: "ReadhubTopic list \<Rightarrow> jstring list \<Rightarrow> ReadhubTopic list" where
  \<open>articleStep newsItems caps =
     (let link = js ''https://readhub.cn'' @ cap 0 caps;
          title = trim (cap 1 caps)
      in if title \<noteq> [] \<and> link \<noteq> [] then newsItems @ [\<lparr>topic_title = title, link = link\<rparr>]
         else newsItems)\<close>

definition readhubTopics :: "jstring \<Rightarrow> ReadhubTopic list" where
  \<open>readhubTopics html =
     foldl articleStep [] (map (\<lambda>(pre, m, caps). caps) (fst (matches_g articlePattern html)))\<close>

text \<open>The tip of the feed, a fixed string of nine characters outside ASCII.\<close>

definition readhubTip :: jstring where
  "readhubTip = [19975, 29289, 20043, 20013, 65292, 24076, 26395, 33267, 32654]"

definition readhubUrl :: jstring where
  \<open>readhubUrl = js ''https://readhub.cn/daily''\<close>

definition readhub_try ::
  "Common \<Rightarrow> ServiceReadhub \<Rightarrow> int \<Rightarrow> upstream \<Rightarrow> thrown + ReadhubNewsItem \<times> ServiceReadhub" where
  \<open>readhub_try common this now up =
     (case up of
        NetworkError e \<Rightarrow> Inl e
      | Response status body \<Rightarrow>
          if \<not> ok status then Inl (ErrorObject (js ''Failed to fetch data from Readhub''))
          else (case body of
                  Inl e \<Rightarrow> Inl e
                | Inr html \<Rightarrow>
                    (let data = \<lparr>rh_date = localeDate common now,
                                 rh_news = readhubTopics html,
                                 tip = readhubTip,
                                 rh_updated = localeTime common now,
                                 rh_updated_at = now\<rparr>
                     in Inr (data, this\<lparr>rh_cache := Some data, cacheTime := now\<rparr>))))\<close>

definition readhubNoCache :: thrown where
  \<open>readhubNoCache = ErrorObject (js ''Failed to fetch Readhub data and no cache available'')\<close>

definition readhub_refresh ::
  "Common \<Rightarrow> ServiceReadhub \<Rightarrow> int \<Rightarrow> upstream \<Rightarrow>
   (thrown + ReadhubNewsItem) \<times> ServiceReadhub \<times> jstring list" where
  \<open>readhub_refresh common this now up =
     (case readhub_try common this now up of
        Inr (data, this') \<Rightarrow> (Inr data, this', [readhubUrl])
      | Inl error \<Rightarrow>
          (case rh_cache this of
             Some data \<Rightarrow> (Inr data, this, [readhubUrl])
           | None \<Rightarrow> (Inl readhubNoCache, this, [readhubUrl])))\<close>

text \<open>
  \<open>#fetch\<close> of the Readhub service at the time \<open>now\<close>: the feed returned or the error
  thrown, the service afterwards, and the URLs requested upstream.
\<close>

definition readhub_fetch ::
  "Common \<Rightarrow> ServiceReadhub \<Rightarrow> int \<Rightarrow> upstream \<Rightarrow>
   (thrown + ReadhubNewsItem) \<times> ServiceReadhub \<times> jstring list" where
  \<open>readhub_fetch common this now up =
     (case rh_cache this of
        Some data \<Rightarrow>
          if now - cacheTime this < cacheDuration then (Inr data, this, [])
          else readhub_refresh common this now up
      | None \<Rightarrow> readhub_refresh common this now up)\<close>

text \<open>The services as they are created: no cache yet.\<close>

definition newServiceWikiNews :: ServiceWikiNews where
  "newServiceWikiNews = \<lparr>cache = None, cacheDate = [], lastFetchTime = 0\<rparr>"

definition newServiceReadhub :: ServiceReadhub where
  "newServiceReadhub = \<lparr>rh_cache = None, cacheTime = 0\<rparr>"

section \<open>Notions of the specification\<close>

text \<open>
  The categories that normal extraction collects: those of the two loops of
  \<open>#extractNewsContent\<close>, none when the content block or its headings are missing.
\<close>

definition collected :: "jstring \<Rightarrow> NewsCategory list" where
  "collected html =
     (case js_match_g contentDivRegex html of
        Some (firstContentDiv # others) \<Rightarrow>
          (case js_split headingRegex firstContentDiv of
             section0 # section1 # sections \<Rightarrow> collectCategories section0 (section1 # sections)
           | short \<Rightarrow> [])
      | none \<Rightarrow> [])"

text \<open>
  The absolute target of an anchor, the annotation \<open>Label (url)\<close> of a match of the
  anchor pattern, and the captures of the matches that have a target and a label.
\<close>

definition absoluteUrl :: "jstring \<Rightarrow> jstring" where
  \<open>absoluteUrl href = (if prefix (js ''/'') href then js ''https://en.wikipedia.org'' @ href else href)\<close>

definition annotation :: "jstring list \<Rightarrow> jstring" where
  \<open>annotation caps = cap 1 caps @ js '' ('' @ absoluteUrl (cap 0 caps) @ js '')''\<close>

definition labelled :: "(jstring \<times> jstring \<times> jstring list) list \<Rightarrow> jstring list set" where
  "labelled ms = {caps. \<exists>pre m. (pre, m, caps) \<in> set ms \<and> cap 0 caps \<noteq> [] \<and> cap 1 caps \<noteq> []}"

text \<open>
  The annotation of a match of the external-anchor pattern, the captures with a target and
  a label in the order of the matches, the text that is left when the matches of a pattern
  are taken out, and the markdown that the first pass of \<open>#convertLinksToMarkdown\<close> is
  to write.
\<close>

definition externalAnnotation :: "jstring list \<Rightarrow> jstring" where
  \<open>externalAnnotation caps = cap 1 caps @ js '' ('' @ cap 0 caps @ js '')''\<close>

definition labelledCaptures :: "(jstring \<times> jstring \<times> jstring list) list \<Rightarrow> jstring list list" where
  "labelledCaptures ms =
     filter (\<lambda>caps. cap 0 caps \<noteq> [] \<and> cap 1 caps \<noteq> []) (map (\<lambda>(pre, m, caps). caps) ms)"

definition textWithout :: "rx \<Rightarrow> jstring \<Rightarrow> jstring" where
  "textWithout r s = (case matches_g r s of (ms, after) \<Rightarrow> concat (map (\<lambda>(pre, m, caps). pre) ms) @ after)"

definition markdownLink :: "jstring \<Rightarrow> jstring list \<Rightarrow> jstring" where
  \<open>markdownLink m caps =
     (if sublist (js ''class="external'') m then m
      else js ''['' @ cap 1 caps @ js '']('' @ absoluteUrl (cap 0 caps) @ js '')'')\<close>

definition markdownRendered :: "jstring \<Rightarrow> jstring" where
  "markdownRendered s =
     (case matches_g linkRegex s of (ms, after) \<Rightarrow>
        concat (map (\<lambda>(pre, m, caps). pre @ markdownLink m caps) ms) @ after)"

text \<open>The markup of an anchor with nothing but a target and a label.\<close>

definition anchor :: "jstring \<Rightarrow> jstring \<Rightarrow> jstring" where
  \<open>anchor h t = js ''<a href="'' @ h @ js ''">'' @ t @ js ''</a>''\<close>

text \<open>
  A failed upstream call: the request is rejected, the status is outside 200 to 299, or the
  body cannot be read.
\<close>

definition failed :: "upstream \<Rightarrow> bool" where
  "failed up \<longleftrightarrow>
     (case up of
        NetworkError e \<Rightarrow> True
      | Response status body \<Rightarrow> \<not> ok status \<or> (case body of Inl e \<Rightarrow> True | Inr html \<Rightarrow> False))"

text \<open>
  Environments for the worked examples: a runtime in UTC, a runtime in a zone that leaves
  daylight saving time on 2026-11-01 at 06:00 UTC (four hours behind UTC before, five
  after, as the east of North America), and a stand-in for the \<open>Common\<close> module.
\<close>

definition utc :: "int \<Rightarrow> int" where
  "utc t = 0"

definition easternZone :: "int \<Rightarrow> int" where
  "easternZone t = (if t < 1793512800000 then - 4 * 60 * 60 * 1000 else - 5 * 60 * 60 * 1000)"

definition exampleCommon :: Common where
  "exampleCommon = \<lparr>localeDate = (\<lambda>t. showInt (t div msPerDay)), localeTime = showInt\<rparr>"

definition exampleWikiFeed :: WikiNewsItem where
  "exampleWikiFeed = \<lparr>date = [], news = [], source_url = [], updated = [], updated_at = 0\<rparr>"

definition exampleReadhubFeed :: ReadhubNewsItem where
  "exampleReadhubFeed =
     \<lparr>rh_date = localeDate exampleCommon 1793707200000, rh_news = readhubTopics [],
      tip = readhubTip, rh_updated = localeTime exampleCommon 1793707200000,
      rh_updated_at = 1793707200000\<rparr>"

text \<open>Fragments of markup for the worked examples.\<close>

definition duplicateItem :: jstring where
  \<open>duplicateItem =
     js ''<a href="/x">X</a> <a class="external" href="http://b">B</a><a class="external" href="http://b">B</a>''\<close>

definition nestedList :: jstring where
  \<open>nestedList = js ''<ul><li>Parent<ul><li>A</li><li>B</li></ul></li></ul>''\<close>

definition twoAnchors :: jstring where
  \<open>twoAnchors = js ''<a href="/x">L</a> <a href="http://y">M</a>''\<close>

definition unclosedBlock :: jstring where
  \<open>unclosedBlock = js ''<div class="current-events-content description">abc''\<close>

definition emptyLabel :: jstring where
  \<open>emptyLabel = js ''<a href="/x"></a>''\<close>

definition emptyTarget :: jstring where
  \<open>emptyTarget = js ''<a href="">L</a>''\<close>

definition twoLineLabel :: jstring where
  \<open>twoLineLabel = js ''<a href="/x">L'' @ [10] @ js ''M</a>''\<close>

definition externalAfterTarget :: jstring where
  \<open>externalAfterTarget = js ''<a href="/e" class="external text">E</a>''\<close>

section \<open>Facts about the matcher\<close>

text \<open>
  A match consumes a front part of the input: whatever the continuation is given is a
  suffix of what the matcher was given.
\<close>

lemma star_greedy_suffix:
  "star_greedy c k s caps = Some res \<Longrightarrow> \<exists>s' caps'. suffix s' s \<and> k s' caps' = Some res"
proof (induction s)
  case Nil
  then show ?case by auto
next
  case (Cons x xs)
  show ?case
  proof (cases "cmatch c x \<and> star_greedy c k xs caps \<noteq> None")
    case True
    with Cons.prems have "star_greedy c k xs caps = Some res" by auto
    from Cons.IH [OF this] show ?thesis by (auto intro: suffix_ConsI)
  next
    case False
    with Cons.prems have "k (x # xs) caps = Some res" by (auto split: if_splits)
    then show ?thesis by auto
  qed
qed

lemma star_lazy_suffix:
  "star_lazy c k s caps = Some res \<Longrightarrow> \<exists>s' caps'. suffix s' s \<and> k s' caps' = Some res"
proof (induction s)
  case Nil
  then show ?case by auto
next
  case (Cons x xs)
  show ?case
  proof (cases "k (x # xs) caps")
    case None
    with Cons.prems have "star_lazy c k xs caps = Some res" by (auto split: if_splits)
    from Cons.IH [OF this] show ?thesis by (auto intro: suffix_ConsI)
  next
    case (Some a)
    with Cons.prems show ?thesis by auto
  qed
qed

lemma rmatch_suffix:
  "rmatch r k s caps = Some res \<Longrightarrow> \<exists>s' caps'. suffix s' s \<and> k s' caps' = Some res"
proof (induction r k arbitrary: s caps res rule: rmatch.induct)
  case (1 l k)
  then show ?case by (auto split: if_splits intro: suffix_drop)
next
  case (2 c k)
  then show ?case using star_greedy_suffix [of c k s caps res] by simp
next
  case (3 c k)
  then show ?case using star_lazy_suffix [of c k s caps res] by simp
next
  case (4 c k)
  then show ?case
    by (auto split: list.splits if_splits dest!: star_greedy_suffix intro: suffix_ConsI)
next
  case (5 r k)
  show ?case
  proof (cases "rmatch r k s caps")
    case None
    with 5 show ?thesis by auto
  next
    case (Some a)
    with 5 show ?thesis by auto
  qed
next
  case (6 r k)
  from "6.prems" have "rmatch r (\<lambda>s' caps'. k s' (caps' @ [take (length s - length s') s])) s caps = Some res"
    by simp
  from "6.IH" [OF this] show ?case by blast
next
  case (7 k)
  then show ?case by auto
next
  case (8 r rs k)
  from "8.prems" have "rmatch r (rmatch (Seq rs) k) s caps = Some res" by simp
  from "8.IH"(2) [OF this] obtain s1 caps1 where a: "suffix s1 s" and b: "rmatch (Seq rs) k s1 caps1 = Some res"
    by blast
  from "8.IH"(1) [OF b] obtain s2 caps2 where "suffix s2 s1" and "k s2 caps2 = Some res" by blast
  with a show ?case by (meson suffix_order.trans)
qed

lemma match_here_suffix: "match_here r s = Some (rest, caps) \<Longrightarrow> suffix rest s"
  unfolding match_here_def by (drule rmatch_suffix) auto

lemma search_decomp:
  "search r pre s = Some (p, m, caps, rest) \<Longrightarrow> p @ m @ rest = pre @ s"
proof (induction s arbitrary: pre)
  case Nil
  then show ?case by (auto split: option.splits dest!: match_here_suffix)
next
  case (Cons x xs)
  show ?case
  proof (cases "match_here r (x # xs)")
    case None
    with Cons.prems have "search r (pre @ [x]) xs = Some (p, m, caps, rest)" by simp
    from Cons.IH [OF this] show ?thesis by simp
  next
    case (Some a)
    obtain rest' caps' where a: "a = (rest', caps')" by (cases a)
    with Some Cons.prems have e: "p = pre" "m = take (length (x # xs) - length rest') (x # xs)" "rest = rest'"
      by auto
    from Some a have "suffix rest' (x # xs)" by (auto dest: match_here_suffix)
    then obtain ys where "x # xs = ys @ rest'" by (auto simp: suffix_def)
    with e show ?thesis by auto
  qed
qed

lemma search_Lit_head_None:
  "\<not> sublist l s \<Longrightarrow> search (Seq (Lit l # rs)) pre s = None"
proof (induction s arbitrary: pre)
  case Nil
  then show ?case by (auto simp: match_here_def)
next
  case (Cons x xs)
  then have "\<not> prefix l (x # xs)" and "\<not> sublist l xs"
    by (auto simp: sublist_Cons_right)
  with Cons.IH show ?case by (simp add: match_here_def)
qed

lemma search_Lit_None:
  "\<not> sublist l s \<Longrightarrow> search (Lit l) pre s = None"
proof (induction s arbitrary: pre)
  case Nil
  then show ?case by (auto simp: match_here_def)
next
  case (Cons x xs)
  then have "\<not> prefix l (x # xs)" and "\<not> sublist l xs"
    by (auto simp: sublist_Cons_right)
  with Cons.IH show ?case by (simp add: match_here_def)
qed

text \<open>The patterns of the services consume input, so their matches are never empty.\<close>

lemma rmatch_consumes:
  "consumes r \<Longrightarrow> rmatch r k s caps = Some res \<Longrightarrow>
   \<exists>s' caps'. suffix s' s \<and> length s' < length s \<and> k s' caps' = Some res"
proof (induction r k arbitrary: s caps res rule: rmatch.induct)
  case (1 l k)
  then have p: "prefix l s" and r: "k (drop (length l) s) caps = Some res" and "l \<noteq> []"
    by (auto split: if_splits)
  then have "length (drop (length l) s) < length s"
    by (cases s) (auto simp: prefix_def)
  with r show ?case by (auto intro: suffix_drop)
next
  case (4 c k)
  then obtain x xs where s: "s = x # xs" and g: "star_greedy c k xs caps = Some res"
    by (auto split: list.splits if_splits)
  from star_greedy_suffix [OF g] obtain s' caps' where "suffix s' xs" and "k s' caps' = Some res"
    by blast
  then show ?case
    unfolding s by (metis length_Cons less_Suc_eq_le suffix_ConsI suffix_length_le)
next
  case (6 r k)
  from "6.prems" have "consumes r"
    and "rmatch r (\<lambda>s' caps'. k s' (caps' @ [take (length s - length s') s])) s caps = Some res"
    by simp_all
  from "6.IH" [OF this] show ?case by blast
next
  case (8 r rs k)
  from "8.prems" have m: "rmatch r (rmatch (Seq rs) k) s caps = Some res" by simp
  show ?case
  proof (cases "consumes r")
    case True
    from "8.IH"(2) [OF True m] obtain s1 caps1
      where a: "suffix s1 s" "length s1 < length s" and b: "rmatch (Seq rs) k s1 caps1 = Some res"
      by blast
    from rmatch_suffix [OF b] obtain s2 caps2 where c: "suffix s2 s1" "k s2 caps2 = Some res"
      by blast
    with a have "suffix s2 s" "length s2 < length s"
      by (meson suffix_order.trans, meson suffix_length_le le_less_trans)
    with c show ?thesis by blast
  next
    case False
    with "8.prems" have cr: "consumes (Seq rs)" by simp
    from rmatch_suffix [OF m] obtain s1 caps1
      where a: "suffix s1 s" and b: "rmatch (Seq rs) k s1 caps1 = Some res"
      by blast
    from "8.IH"(1) [OF cr b] obtain s2 caps2
      where c: "suffix s2 s1" "length s2 < length s1" "k s2 caps2 = Some res"
      by blast
    with a have "suffix s2 s" "length s2 < length s"
      by (meson suffix_order.trans, meson suffix_length_le less_le_trans)
    with c show ?thesis by blast
  qed
qed simp_all

lemma search_consumes:
  "consumes r \<Longrightarrow> search r pre s = Some (p, m, caps, rest) \<Longrightarrow> length rest < length s"
proof (induction s arbitrary: pre)
  case Nil
  then show ?case
    by (auto simp: match_here_def split: option.splits dest!: rmatch_consumes)
next
  case (Cons x xs)
  show ?case
  proof (cases "match_here r (x # xs)")
    case None
    with Cons.prems have "search r (pre @ [x]) xs = Some (p, m, caps, rest)" by simp
    from Cons.IH [OF Cons.prems(1) this] show ?thesis by simp
  next
    case (Some a)
    with Cons.prems have "match_here r (x # xs) = Some (rest, caps)" by (auto split: prod.splits)
    then show ?thesis
      using rmatch_consumes [OF Cons.prems(1), of "\<lambda>rest caps. Some (rest, caps)" "x # xs" "[]" "(rest, caps)"]
      by (auto simp: match_here_def)
  qed
qed

lemma matches_g_consumes:
  "consumes r \<Longrightarrow> search r [] s = Some (pre, m, caps, rest) \<Longrightarrow>
   matches_g r s = (case matches_g r rest of (ms, after) \<Rightarrow> ((pre, m, caps) # ms, after))"
  by (frule (1) search_consumes) (simp add: matches_g.simps [of r s])

lemma service_patterns_consume:
  "consumes contentDivRegex" "consumes headingRegex" "consumes listItemRegex"
  "consumes externalLinkRegex" "consumes linkRegex" "consumes ulRegex" "consumes liRegex"
  "consumes tagRegex" "consumes spacesRegex" "consumes bulletBulletRegex"
  "consumes colonBulletRegex" "consumes spacesColonRegex" "consumes spacesDotRegex"
  "consumes articlePattern"
  by (simp_all add: contentDivRegex_def contentDivOpen_def headingRegex_def headingMark_def
      listItemRegex_def externalLinkRegex_def linkRegex_def ulRegex_def liRegex_def tagRegex_def
      spacesRegex_def bulletBulletRegex_def colonBulletRegex_def spacesColonRegex_def
      spacesDotRegex_def articlePattern_def js_def)

lemma matches_g_no_match: "search r [] s = None \<Longrightarrow> matches_g r s = ([], s)"
  by (simp add: matches_g.simps)

lemma js_match_g_first:
  assumes "js_match_g r s = Some ms"
  shows "\<exists>d ds. ms = d # ds \<and> sublist d s"
proof (cases "search r [] s")
  case None
  with assms show ?thesis by (simp add: js_match_g_def matches_g_no_match)
next
  case (Some a)
  obtain pre m caps rest where a: "a = (pre, m, caps, rest)" by (cases a)
  from Some a have "pre @ m @ rest = s" by (auto dest: search_decomp)
  then have sub: "sublist m s" by (auto simp: sublist_def)
  from Some a have "\<exists>xs. map (\<lambda>(pre, m, caps). m) (fst (matches_g r s)) = m # xs"
    by (simp add: matches_g.simps [of r s] split: prod.splits)
  with assms sub show ?thesis by (auto simp: js_match_g_def split: list.splits)
qed

lemma js_match_g_contentDiv_None:
  "\<not> sublist contentDivOpen html \<Longrightarrow> js_match_g contentDivRegex html = None"
  by (simp add: js_match_g_def contentDivRegex_def search_Lit_head_None matches_g_no_match)

lemma js_split_no_match: "\<not> sublist l s \<Longrightarrow> js_split (Lit l) s = [s]"
  by (simp add: js_split_def search_Lit_None matches_g_no_match)

section \<open>The extractor always returns categories\<close>

text \<open>
  C1. For every input string, \<open>extractNewsContent\<close> returns a sequence of at least one
  category: the try block never reaches its catch block, the categories collected are
  returned when there are any, and when normal extraction collects nothing the result is
  a single synthetic category with one non-empty diagnostic item.
\<close>

theorem extractNewsContent_total_nonempty:
  "(\<exists>categories. extractNewsContent_try html = Inr categories) \<and>
   1 \<le> length (extractNewsContent html) \<and>
   (collected html \<noteq> [] \<longrightarrow> extractNewsContent html = collected html) \<and>
   (collected html = [] \<longrightarrow>
      (\<exists>t msg. extractNewsContent html = [\<lparr>title = t, items = [\<lparr>item_text = msg\<rparr>]\<rparr>] \<and>
         msg \<noteq> []))"
  by (auto simp: extractNewsContent_def extractNewsContent_try_def collected_def singleCategory_def
      Let_def js_def Suc_le_eq split: option.splits list.splits)

theorem extractNewsContent_total_nonempty_witness:
  "(\<exists>categories. extractNewsContent_try [] = Inr categories) \<and>
   1 \<le> length (extractNewsContent []) \<and> collected [] = [] \<and>
   (\<exists>t msg. extractNewsContent [] = [\<lparr>title = t, items = [\<lparr>item_text = msg\<rparr>]\<rparr>] \<and> msg \<noteq> [])"
proof -
  have "collected [] = []"
    by (simp add: collected_def js_match_g_def matches_g.simps match_here_def contentDivRegex_def
        contentDivOpen_def js_def)
  with extractNewsContent_total_nonempty [of "[]"] show ?thesis by simp
qed

section \<open>Missing marker, missing headings\<close>

text \<open>
  C6. For every input that lacks the marker of the content block (the opening tag with the
  class name), extraction returns exactly one category, titled \<open>Error\<close>, with one
  non-empty diagnostic item.
\<close>

theorem extractNewsContent_without_marker:
  "\<not> sublist contentDivOpen html \<Longrightarrow>
   extractNewsContent html =
     [\<lparr>title = js ''Error'',
       items = [\<lparr>item_text = js ''No news content sections found in the HTML''\<rparr>]\<rparr>]"
  by (simp add: extractNewsContent_def extractNewsContent_try_def js_match_g_contentDiv_None
      singleCategory_def)

theorem extractNewsContent_without_marker_witness:
  "\<not> sublist contentDivOpen (js ''<p>none</p>'') \<and>
   extractNewsContent (js ''<p>none</p>'') =
     [\<lparr>title = js ''Error'',
       items = [\<lparr>item_text = js ''No news content sections found in the HTML''\<rparr>]\<rparr>]"
proof -
  have absent: "\<not> sublist contentDivOpen (js ''<p>none</p>'')"
    by (simp add: contentDivOpen_def js_def sublist_Cons_right)
  from absent extractNewsContent_without_marker [OF absent] show ?thesis by simp
qed

lemma star_lazy_AnyChar_complete:
  "suffix s' s \<Longrightarrow> k s' caps \<noteq> None \<Longrightarrow> star_lazy AnyChar k s caps \<noteq> None"
proof (induction s)
  case Nil
  then show ?case by simp
next
  case (Cons x xs)
  show ?case
  proof (cases "k (x # xs) caps")
    case None
    with Cons.prems have "suffix s' xs" by (auto simp: suffix_Cons)
    from Cons.IH [OF this Cons.prems(2)] None show ?thesis by simp
  next
    case (Some a)
    then show ?thesis by simp
  qed
qed

lemma match_here_contentDiv:
  "match_here contentDivRegex (contentDivOpen @ b @ js ''</div>'' @ c) \<noteq> None"
proof -
  let ?t = "b @ js ''</div>'' @ c"
  let ?K = "\<lambda>rest caps. Some (rest, caps) :: (jstring \<times> jstring list) option"
  let ?k = "\<lambda>s' caps'. rmatch (Seq [Lit (js ''</div>'')]) ?K s' (caps' @ [take (length ?t - length s') ?t])"
  have "suffix (js ''</div>'' @ c) ?t"
    by (simp add: suffix_def)
  moreover have "?k (js ''</div>'' @ c) [] \<noteq> None" by simp
  ultimately have "star_lazy AnyChar ?k ?t [] \<noteq> None"
    by (rule star_lazy_AnyChar_complete)
  moreover have "match_here contentDivRegex (contentDivOpen @ ?t) = star_lazy AnyChar ?k ?t []"
    by (simp add: match_here_def contentDivRegex_def cong: if_cong)
  ultimately show ?thesis by simp
qed

lemma search_append: "match_here r s \<noteq> None \<Longrightarrow> search r pre (a @ s) \<noteq> None"
proof (induction a arbitrary: pre)
  case Nil
  then show ?case by (cases s) auto
next
  case (Cons x a)
  from Cons.IH [OF Cons.prems, of "pre @ [x]"] show ?case
    by (auto split: option.splits)
qed

lemma js_match_g_found: "search r [] s \<noteq> None \<Longrightarrow> js_match_g r s \<noteq> None"
  by (auto simp: js_match_g_def matches_g.simps [of r s] split: prod.splits list.splits if_splits)

lemma search_found_at:
  "search r pre s = Some (p, m, caps, rest) \<Longrightarrow> \<exists>a t. s = a @ t \<and> match_here r t = Some (rest, caps)"
proof (induction s arbitrary: pre)
  case Nil
  then show ?case by (auto split: option.splits)
next
  case (Cons x xs)
  show ?case
  proof (cases "match_here r (x # xs)")
    case None
    with Cons.prems have "search r (pre @ [x]) xs = Some (p, m, caps, rest)" by simp
    from Cons.IH [OF this] obtain a t where "xs = a @ t" "match_here r t = Some (rest, caps)"
      by blast
    then have "x # xs = (x # a) @ t" by simp
    with \<open>match_here r t = Some (rest, caps)\<close> show ?thesis by blast
  next
    case (Some q)
    with Cons.prems have "match_here r (x # xs) = Some (rest, caps)" by (auto split: prod.splits)
    then have "x # xs = [] @ (x # xs) \<and> match_here r (x # xs) = Some (rest, caps)" by simp
    then show ?thesis by blast
  qed
qed

lemma match_here_contentDiv_shape:
  assumes "match_here contentDivRegex t = Some (rest, caps)"
  shows "\<exists>b c. t = contentDivOpen @ b @ js ''</div>'' @ c"
proof -
  let ?t' = "drop (length contentDivOpen) t"
  let ?k = "\<lambda>s' caps'. (if prefix (js ''</div>'') s'
              then Some (drop (length (js ''</div>'')) s', caps' @ [take (length ?t' - length s') ?t'])
              else None)"
  from assms have p: "prefix contentDivOpen t" and st: "star_lazy AnyChar ?k ?t' [] = Some (rest, caps)"
    by (auto simp: match_here_def contentDivRegex_def split: if_splits)
  from star_lazy_suffix [OF st] obtain s' caps' where suf: "suffix s' ?t'" and k: "?k s' caps' = Some (rest, caps)"
    by blast
  from k have "prefix (js ''</div>'') s'" by (auto split: if_splits)
  then obtain c where c: "s' = js ''</div>'' @ c" by (auto simp: prefix_def)
  from suf obtain b where b: "?t' = b @ s'" by (auto simp: suffix_def)
  from p have "t = contentDivOpen @ ?t'" by (auto simp: prefix_def)
  with b c show ?thesis by metis
qed

lemma content_block_iff:
  "js_match_g contentDivRegex html \<noteq> None \<longleftrightarrow>
     (\<exists>a b c. html = a @ contentDivOpen @ b @ js ''</div>'' @ c)"
proof
  assume found: "js_match_g contentDivRegex html \<noteq> None"
  have "search contentDivRegex [] html \<noteq> None"
  proof
    assume "search contentDivRegex [] html = None"
    then have "js_match_g contentDivRegex html = None"
      by (simp add: js_match_g_def matches_g_no_match)
    with found show False by simp
  qed
  then obtain p m caps rest where "search contentDivRegex [] html = Some (p, m, caps, rest)"
    by (metis not_None_eq prod_cases4)
  from search_found_at [OF this] obtain a t
    where "html = a @ t" and "match_here contentDivRegex t = Some (rest, caps)" by blast
  with match_here_contentDiv_shape show "\<exists>a b c. html = a @ contentDivOpen @ b @ js ''</div>'' @ c"
    by blast
next
  assume "\<exists>a b c. html = a @ contentDivOpen @ b @ js ''</div>'' @ c"
  then obtain a b c where h: "html = a @ contentDivOpen @ b @ js ''</div>'' @ c" by blast
  show "js_match_g contentDivRegex html \<noteq> None"
    unfolding h by (intro js_match_g_found search_append match_here_contentDiv)
qed

text \<open>
  C5, as amended. For every input in which the opening tag of the content block is
  followed somewhere by \<open></div>\<close> (so that the pattern of the content block matches) and
  that has no bolded heading (no \<open><p><b>\<close>), extraction returns exactly the category
  \<open>Uncategorized\<close> with the item \<open>No categories found in content\<close>.
\<close>

theorem extractNewsContent_no_headings:
  assumes block: "html = a @ contentDivOpen @ b @ js ''</div>'' @ c"
    and none: "\<not> sublist headingMark html"
  shows "extractNewsContent html =
     [\<lparr>title = js ''Uncategorized'',
       items = [\<lparr>item_text = js ''No categories found in content''\<rparr>]\<rparr>]"
proof -
  from block have "js_match_g contentDivRegex html \<noteq> None"
    using content_block_iff by blast
  then obtain ms where ms: "js_match_g contentDivRegex html = Some ms" by auto
  from js_match_g_first [OF this] obtain d ds where d: "ms = d # ds" and sub: "sublist d html"
    by blast
  from sub none have "\<not> sublist headingMark d"
    using sublist_order.order.trans by blast
  then have "js_split headingRegex d = [d]"
    by (simp add: headingRegex_def js_split_no_match)
  with ms d show ?thesis
    by (simp add: extractNewsContent_def extractNewsContent_try_def singleCategory_def)
qed

theorem extractNewsContent_no_headings_witness:
  "js ''<div class=\"current-events-content description\">abc</div>'' =
     [] @ contentDivOpen @ js ''abc'' @ js ''</div>'' @ [] \<and>
   \<not> sublist headingMark (js ''<div class=\"current-events-content description\">abc</div>'') \<and>
   extractNewsContent (js ''<div class=\"current-events-content description\">abc</div>'') =
     [\<lparr>title = js ''Uncategorized'',
       items = [\<lparr>item_text = js ''No categories found in content''\<rparr>]\<rparr>]"
proof -
  have block: "js ''<div class=\"current-events-content description\">abc</div>'' =
     [] @ contentDivOpen @ js ''abc'' @ js ''</div>'' @ []"
    by (simp add: contentDivOpen_def js_def)
  have none: "\<not> sublist headingMark (js ''<div class=\"current-events-content description\">abc</div>'')"
    by (simp add: headingMark_def js_def sublist_Cons_right)
  from block none extractNewsContent_no_headings [OF block none] show ?thesis by simp
qed

text \<open>
  The claim as stated fails when the marker is present but no \<open></div>\<close> follows it: the
  pattern of the content block does not match and the result is the \<open>Error\<close> category.
\<close>

lemma unclosed_no_match: "js_match_g contentDivRegex unclosedBlock = None"
  by (simp add: unclosedBlock_def js_match_g_def matches_g.simps match_here_def contentDivRegex_def
      contentDivOpen_def js_def)

theorem marker_without_close_counterexample:
  "sublist contentDivOpen unclosedBlock \<and> \<not> sublist headingMark unclosedBlock \<and>
   extractNewsContent unclosedBlock =
     [\<lparr>title = js ''Error'',
       items = [\<lparr>item_text = js ''No news content sections found in the HTML''\<rparr>]\<rparr>] \<and>
   extractNewsContent unclosedBlock \<noteq>
     [\<lparr>title = js ''Uncategorized'',
       items = [\<lparr>item_text = js ''No categories found in content''\<rparr>]\<rparr>]"
proof -
  have a: "sublist contentDivOpen unclosedBlock"
    by (simp add: unclosedBlock_def contentDivOpen_def js_def sublist_Cons_right)
  have b: "\<not> sublist headingMark unclosedBlock"
    by (simp add: unclosedBlock_def headingMark_def js_def sublist_Cons_right)
  have c: "extractNewsContent unclosedBlock =
     [\<lparr>title = js ''Error'',
       items = [\<lparr>item_text = js ''No news content sections found in the HTML''\<rparr>]\<rparr>]"
    by (simp add: extractNewsContent_def extractNewsContent_try_def unclosed_no_match singleCategory_def)
  have d: "js ''Error'' \<noteq> js ''Uncategorized''" by (simp add: js_def)
  from a b c d show ?thesis by simp
qed

section \<open>Fetching: failure and cache\<close>

lemma wiki_try_failed: "failed up \<Longrightarrow> \<exists>url e. wiki_try common tza this now today up = (url, Inl e)"
  by (auto simp: failed_def wiki_try_def Let_def split: upstream.splits sum.splits)

lemma readhub_try_failed: "failed up \<Longrightarrow> \<exists>e. readhub_try common this now up = Inl e"
  by (auto simp: failed_def readhub_try_def Let_def split: upstream.splits sum.splits)

lemma wiki_refresh_failed:
  assumes "failed up"
  shows "fst (wiki_refresh common tza this now today up) =
           (case cache this of Some data \<Rightarrow> Inr data | None \<Rightarrow> Inl wikiNoCache) \<and>
         fst (snd (wiki_refresh common tza this now today up)) = this"
proof -
  from wiki_try_failed [OF assms] obtain url e
    where "wiki_try common tza this now today up = (url, Inl e)" by blast
  then show ?thesis by (simp add: wiki_refresh_def split: option.splits)
qed

lemma readhub_refresh_failed:
  assumes "failed up"
  shows "fst (readhub_refresh common this now up) =
           (case rh_cache this of Some data \<Rightarrow> Inr data | None \<Rightarrow> Inl readhubNoCache) \<and>
         fst (snd (readhub_refresh common this now up)) = this"
proof -
  from readhub_try_failed [OF assms] obtain e
    where "readhub_try common this now up = Inl e" by blast
  then show ?thesis by (simp add: readhub_refresh_def split: option.splits)
qed

text \<open>
  C3. When the upstream call fails, a fetch returns the cached feed unchanged if there is
  one, and throws the error of the last resort if there is none; in both cases the
  service (its cache, key and time) stays as it was. This holds for both services.
\<close>

theorem fetch_failure_falls_back:
  assumes "failed up"
  shows "(case cache w of
            Some feed \<Rightarrow> fst (wiki_fetch common tza w now up) = Inr feed
          | None \<Rightarrow> fst (wiki_fetch common tza w now up) = Inl wikiNoCache) \<and>
         fst (snd (wiki_fetch common tza w now up)) = w \<and>
         (case rh_cache r of
            Some feed \<Rightarrow> fst (readhub_fetch common r now up) = Inr feed
          | None \<Rightarrow> fst (readhub_fetch common r now up) = Inl readhubNoCache) \<and>
         fst (snd (readhub_fetch common r now up)) = r"
  using wiki_refresh_failed [OF assms] readhub_refresh_failed [OF assms]
  by (simp add: wiki_fetch_def readhub_fetch_def Let_def split: option.splits)

lemma ok_200: "ok 200" and not_ok_500: "\<not> ok 500"
  by (simp_all add: ok_def)

theorem fetch_failure_falls_back_witness:
  "failed (Response 500 (Inr [])) \<and>
   fst (wiki_fetch exampleCommon utc newServiceWikiNews 1793707200000 (Response 500 (Inr []))) =
     Inl wikiNoCache \<and>
   fst (snd (wiki_fetch exampleCommon utc newServiceWikiNews 1793707200000 (Response 500 (Inr [])))) =
     newServiceWikiNews \<and>
   fst (readhub_fetch exampleCommon
          \<lparr>rh_cache = Some \<lparr>rh_date = [], rh_news = [], tip = readhubTip, rh_updated = [],
                             rh_updated_at = 0\<rparr>, cacheTime = 0\<rparr>
          1793707200000 (Response 500 (Inr []))) =
     Inr \<lparr>rh_date = [], rh_news = [], tip = readhubTip, rh_updated = [], rh_updated_at = 0\<rparr> \<and>
   fst (snd (readhub_fetch exampleCommon
          \<lparr>rh_cache = Some \<lparr>rh_date = [], rh_news = [], tip = readhubTip, rh_updated = [],
                             rh_updated_at = 0\<rparr>, cacheTime = 0\<rparr>
          1793707200000 (Response 500 (Inr [])))) =
     \<lparr>rh_cache = Some \<lparr>rh_date = [], rh_news = [], tip = readhubTip, rh_updated = [],
                        rh_updated_at = 0\<rparr>, cacheTime = 0\<rparr>"
proof -
  have f: "failed (Response 500 (Inr []))"
    by (simp add: failed_def not_ok_500)
  from f fetch_failure_falls_back [OF f, where w = newServiceWikiNews and common = exampleCommon
      and tza = utc and now = 1793707200000 and r =
      "\<lparr>rh_cache = Some \<lparr>rh_date = [], rh_news = [], tip = readhubTip, rh_updated = [],
                             rh_updated_at = 0\<rparr>, cacheTime = 0\<rparr>"]
  show ?thesis by (simp add: newServiceWikiNews_def)
qed

lemma wiki_fetch_hit:
  "cache w = Some feed \<Longrightarrow> cacheDate w = wikiToday common now \<Longrightarrow>
   wiki_fetch common tza w now up = (Inr feed, w, [])"
  by (simp add: wiki_fetch_def wikiToday_def)

lemma readhub_fetch_hit:
  "rh_cache r = Some feed \<Longrightarrow> now - cacheTime r < cacheDuration \<Longrightarrow>
   readhub_fetch common r now up = (Inr feed, r, [])"
  by (simp add: readhub_fetch_def)

lemma readhub_refresh_calls: "snd (snd (readhub_refresh common r now up)) = [readhubUrl]"
  by (simp add: readhub_refresh_def split: sum.splits option.splits prod.splits)

lemma readhub_fetch_calls:
  "snd (snd (readhub_fetch common r now up)) =
     (if rh_cache r \<noteq> None \<and> now - cacheTime r < cacheDuration then [] else [readhubUrl])"
  by (auto simp: readhub_fetch_def readhub_refresh_calls split: option.splits)

lemma readhub_fetch_success:
  assumes "ok status" and "rh_cache r = None \<or> \<not> t0 - cacheTime r < cacheDuration"
  shows "\<exists>feed. readhub_fetch common r t0 (Response status (Inr html)) =
           (Inr feed, r\<lparr>rh_cache := Some feed, cacheTime := t0\<rparr>, [readhubUrl])"
  using assms
  by (auto simp: readhub_fetch_def readhub_refresh_def readhub_try_def Let_def split: option.splits)

text \<open>
  C4. On a cache hit a fetch requests nothing upstream, leaves the service unchanged and
  returns the feed stored. For Readhub, with a feed in the cache, the fetch is a hit
  exactly when \<open>now - cacheTime < 30 minutes\<close>: after a fetch at \<open>t0\<close> that went upstream
  and succeeded, a fetch 29 minutes later is served from the cache and a fetch 31 minutes
  later goes upstream again.
\<close>

theorem cache_hit_no_upstream_call:
  "(cache w = Some feed \<and> cacheDate w = wikiToday common now \<longrightarrow>
      wiki_fetch common tza w now up = (Inr feed, w, [])) \<and>
   (rh_cache r = Some feed' \<and> now - cacheTime r < cacheDuration \<longrightarrow>
      readhub_fetch common r now up = (Inr feed', r, [])) \<and>
   (rh_cache r = Some feed' \<longrightarrow>
      (snd (snd (readhub_fetch common r now up)) = []) = (now - cacheTime r < 30 * 60 * 1000)) \<and>
   (readhub_fetch common r_old t_first up_first = (Inr fresh, r_new, [readhubUrl]) \<and> \<not> failed up_first \<longrightarrow>
      readhub_fetch common r_new (t_first + 29 * 60 * 1000) up = (Inr fresh, r_new, []) \<and>
      snd (snd (readhub_fetch common r_new (t_first + 31 * 60 * 1000) up)) = [readhubUrl])"
proof (intro conjI impI)
  assume "cache w = Some feed \<and> cacheDate w = wikiToday common now"
  then show "wiki_fetch common tza w now up = (Inr feed, w, [])"
    by (simp add: wiki_fetch_hit)
next
  assume "rh_cache r = Some feed' \<and> now - cacheTime r < cacheDuration"
  then show "readhub_fetch common r now up = (Inr feed', r, [])"
    by (simp add: readhub_fetch_hit)
next
  assume "rh_cache r = Some feed'"
  then show "(snd (snd (readhub_fetch common r now up)) = []) = (now - cacheTime r < 30 * 60 * 1000)"
    by (simp add: readhub_fetch_calls cacheDuration_def readhubUrl_def)
next
  assume a: "readhub_fetch common r_old t_first up_first = (Inr fresh, r_new, [readhubUrl]) \<and> \<not> failed up_first"
  then have miss: "rh_cache r_old = None \<or> \<not> t_first - cacheTime r_old < cacheDuration"
    using readhub_fetch_calls [of common r_old t_first up_first] by (auto split: if_splits)
  from a obtain status html where up_first: "up_first = Response status (Inr html)" and ok: "ok status"
    by (auto simp: failed_def split: upstream.splits sum.splits)
  from readhub_fetch_success [OF ok miss, of common html] a up_first
  have r_new: "r_new = r_old\<lparr>rh_cache := Some fresh, cacheTime := t_first\<rparr>" by auto
  then have c: "rh_cache r_new = Some fresh" and t: "cacheTime r_new = t_first" by simp_all
  show "readhub_fetch common r_new (t_first + 29 * 60 * 1000) up = (Inr fresh, r_new, [])"
    using c t by (simp add: readhub_fetch_hit cacheDuration_def)
  show "snd (snd (readhub_fetch common r_new (t_first + 31 * 60 * 1000) up)) = [readhubUrl]"
    using c t by (simp add: readhub_fetch_calls cacheDuration_def)
qed

lemma wikiToday_example: "wikiToday exampleCommon 1793707200000 = js ''20760''"
  by (simp add: wikiToday_def exampleCommon_def msPerDay_def showInt_def digits.simps
      js_replace_def js_replace_cb_def matches_g.simps match_here_def js_def)

lemma readhub_first_fetch:
  "readhub_fetch exampleCommon newServiceReadhub 1793707200000 (Response 200 (Inr [])) =
     (Inr exampleReadhubFeed,
      \<lparr>rh_cache = Some exampleReadhubFeed, cacheTime = 1793707200000\<rparr>, [readhubUrl])"
  by (simp add: readhub_fetch_def readhub_refresh_def readhub_try_def newServiceReadhub_def
      exampleReadhubFeed_def ok_200 Let_def)

theorem cache_hit_no_upstream_call_witness:
  "cache \<lparr>cache = Some exampleWikiFeed, cacheDate = js ''20760'', lastFetchTime = 0\<rparr> =
     Some exampleWikiFeed \<and>
   cacheDate \<lparr>cache = Some exampleWikiFeed, cacheDate = js ''20760'', lastFetchTime = 0\<rparr> =
     wikiToday exampleCommon 1793707200000 \<and>
   wiki_fetch exampleCommon utc
     \<lparr>cache = Some exampleWikiFeed, cacheDate = js ''20760'', lastFetchTime = 0\<rparr>
     1793707200000 (NetworkError (OtherValue [])) =
     (Inr exampleWikiFeed,
      \<lparr>cache = Some exampleWikiFeed, cacheDate = js ''20760'', lastFetchTime = 0\<rparr>, []) \<and>
   readhub_fetch exampleCommon newServiceReadhub 1793707200000 (Response 200 (Inr [])) =
     (Inr exampleReadhubFeed,
      \<lparr>rh_cache = Some exampleReadhubFeed, cacheTime = 1793707200000\<rparr>, [readhubUrl]) \<and>
   \<not> failed (Response 200 (Inr [])) \<and>
   rh_cache \<lparr>rh_cache = Some exampleReadhubFeed, cacheTime = 1793707200000\<rparr> =
     Some exampleReadhubFeed \<and>
   1793707200000 - cacheTime \<lparr>rh_cache = Some exampleReadhubFeed, cacheTime = 1793707200000\<rparr>
     < cacheDuration \<and>
   readhub_fetch exampleCommon \<lparr>rh_cache = Some exampleReadhubFeed, cacheTime = 1793707200000\<rparr>
     1793707200000 (NetworkError (OtherValue [])) =
     (Inr exampleReadhubFeed,
      \<lparr>rh_cache = Some exampleReadhubFeed, cacheTime = 1793707200000\<rparr>, []) \<and>
   readhub_fetch exampleCommon \<lparr>rh_cache = Some exampleReadhubFeed, cacheTime = 1793707200000\<rparr>
     (1793707200000 + 29 * 60 * 1000) (NetworkError (OtherValue [])) =
     (Inr exampleReadhubFeed,
      \<lparr>rh_cache = Some exampleReadhubFeed, cacheTime = 1793707200000\<rparr>, []) \<and>
   snd (snd (readhub_fetch exampleCommon
     \<lparr>rh_cache = Some exampleReadhubFeed, cacheTime = 1793707200000\<rparr>
     (1793707200000 + 31 * 60 * 1000) (NetworkError (OtherValue [])))) = [readhubUrl]"
proof -
  have up: "\<not> failed (Response 200 (Inr []))"
    by (simp add: failed_def ok_200)
  have fresh: "(1793707200000::int) - 1793707200000 < cacheDuration"
    by (simp add: cacheDuration_def)
  from cache_hit_no_upstream_call
    [where w = "\<lparr>cache = Some exampleWikiFeed, cacheDate = js ''20760'', lastFetchTime = 0\<rparr>"
       and feed = exampleWikiFeed and common = exampleCommon and now = 1793707200000
       and tza = utc and up = "NetworkError (OtherValue [])"
       and r = "\<lparr>rh_cache = Some exampleReadhubFeed, cacheTime = 1793707200000\<rparr>"
       and feed' = exampleReadhubFeed and r_old = newServiceReadhub and t_first = 1793707200000
       and up_first = "Response 200 (Inr [])" and fresh = exampleReadhubFeed
       and r_new = "\<lparr>rh_cache = Some exampleReadhubFeed, cacheTime = 1793707200000\<rparr>"]
    up fresh
  show ?thesis
    by (simp add: wikiToday_example readhub_first_fetch)
qed

section \<open>The subject date of the WikiNews feed\<close>

lemma localDay_previous:
  "tza (now - msPerDay) = tza now \<Longrightarrow> localDay tza (now - msPerDay) = localDay tza now - 1"
  by (simp add: localDay_def msPerDay_def)

lemma wiki_refresh_calls:
  "snd (snd (wiki_refresh common tza w now today up)) = [wikiUrl tza (now - msPerDay)]"
  by (simp add: wiki_refresh_def wiki_try_def Let_def msPerDay_def
      split: sum.splits option.splits prod.splits upstream.splits)

lemma wiki_refresh_success:
  "\<not> failed up \<Longrightarrow>
   \<exists>feed. wiki_refresh common tza w now today up =
     (Inr feed, w\<lparr>cache := Some feed, cacheDate := today, lastFetchTime := now\<rparr>,
      [wikiUrl tza (now - msPerDay)]) \<and>
     date feed = formattedDate tza (now - msPerDay) \<and>
     source_url feed = wikiUrl tza (now - msPerDay) \<and>
     (\<exists>status html. up = Response status (Inr html) \<and> news feed = extractNewsContent html)"
  by (auto simp: failed_def wiki_refresh_def wiki_try_def Let_def msPerDay_def
      split: upstream.splits sum.splits)

text \<open>
  C10, as amended. A fetch that the cache does not serve requests the page of the instant
  24 hours before \<open>now\<close> (the URL is built from the local year, month name and day of
  that instant), and when the upstream call succeeds the date of the feed is built from
  the same instant. That instant lies on the calendar day before the day of the fetch
  whenever the local offset from UTC is the same at both instants.
\<close>

theorem wiki_fetch_previous_instant:
  assumes miss: "cache w = None \<or> cacheDate w \<noteq> wikiToday common now"
  shows "snd (snd (wiki_fetch common tza w now up)) = [wikiUrl tza (now - msPerDay)] \<and>
         (\<not> failed up \<longrightarrow>
            (\<exists>feed w'. wiki_fetch common tza w now up = (Inr feed, w', [wikiUrl tza (now - msPerDay)]) \<and>
               date feed = formattedDate tza (now - msPerDay) \<and>
               source_url feed = wikiUrl tza (now - msPerDay))) \<and>
         (tza (now - msPerDay) = tza now \<longrightarrow>
            localDay tza (now - msPerDay) = localDay tza now - 1)"
proof -
  from miss have f: "wiki_fetch common tza w now up = wiki_refresh common tza w now (wikiToday common now) up"
    by (auto simp: wiki_fetch_def Let_def split: option.splits)
  show ?thesis
    using wiki_refresh_success [of up common tza w now "wikiToday common now"]
    by (auto simp: f wiki_refresh_calls localDay_previous)
qed

lemma civil_20759: "civil 20759 = (2026, 11, 2)"
  unfolding civil_def Let_def by simp

lemma civil_20758: "civil 20758 = (2026, 11, 1)"
  unfolding civil_def Let_def by simp

lemma showInt_examples: "showInt 2026 = js ''2026''" "showInt 1 = js ''1''" "showInt 2 = js ''2''"
  by (simp_all add: showInt_def digits.simps js_def)

lemma monthNames_11: "monthNames ! 10 = js ''November''"
  by (simp add: monthNames_def)

lemma utc_day_example: "localDay utc (1793707200000 - msPerDay) = 20759"
  by (simp add: localDay_def utc_def msPerDay_def)

lemma eastern_day_before: "localDay easternZone (1793593800000 - msPerDay) = 20758"
  by (simp add: localDay_def easternZone_def msPerDay_def)

lemma eastern_day_of_fetch: "localDay easternZone 1793593800000 = 20758"
  by (simp add: localDay_def easternZone_def msPerDay_def)

lemma utc_url_example:
  "wikiUrl utc (1793707200000 - msPerDay) =
     js ''https://en.wikipedia.org/wiki/Portal:Current_events/2026_November_2''"
  by (simp add: wikiUrl_def getFullYear_def getDate_def monthLong_def utc_day_example civil_20759
      showInt_examples monthNames_11 js_def)

lemma utc_date_example:
  "formattedDate utc (1793707200000 - msPerDay) = js ''November 2, 2026''"
  by (simp add: formattedDate_def getFullYear_def getDate_def monthLong_def utc_day_example
      civil_20759 showInt_examples monthNames_11 js_def)

lemma eastern_date_before:
  "formattedDate easternZone (1793593800000 - msPerDay) = js ''November 1, 2026''"
  by (simp add: formattedDate_def getFullYear_def getDate_def monthLong_def eastern_day_before
      civil_20758 showInt_examples monthNames_11 js_def)

lemma eastern_date_of_fetch:
  "formattedDate easternZone 1793593800000 = js ''November 1, 2026''"
  by (simp add: formattedDate_def getFullYear_def getDate_def monthLong_def eastern_day_of_fetch
      civil_20758 showInt_examples monthNames_11 js_def)

theorem wiki_fetch_previous_instant_witness:
  "(cache newServiceWikiNews = None \<or>
      cacheDate newServiceWikiNews \<noteq> wikiToday exampleCommon 1793707200000) \<and>
   \<not> failed (Response 200 (Inr [])) \<and>
   utc (1793707200000 - msPerDay) = utc 1793707200000 \<and>
   snd (snd (wiki_fetch exampleCommon utc newServiceWikiNews 1793707200000 (Response 200 (Inr [])))) =
     [js ''https://en.wikipedia.org/wiki/Portal:Current_events/2026_November_2''] \<and>
   (\<exists>feed w'. wiki_fetch exampleCommon utc newServiceWikiNews 1793707200000 (Response 200 (Inr [])) =
        (Inr feed, w', [js ''https://en.wikipedia.org/wiki/Portal:Current_events/2026_November_2'']) \<and>
      date feed = js ''November 2, 2026'') \<and>
   localDay utc (1793707200000 - msPerDay) = localDay utc 1793707200000 - 1"
proof -
  have miss: "cache newServiceWikiNews = None \<or>
      cacheDate newServiceWikiNews \<noteq> wikiToday exampleCommon 1793707200000"
    by (simp add: newServiceWikiNews_def)
  have up: "\<not> failed (Response 200 (Inr []))"
    by (simp add: failed_def ok_200)
  have zone: "utc (1793707200000 - msPerDay) = utc 1793707200000"
    by (simp add: utc_def)
  from wiki_fetch_previous_instant [OF miss, where tza = utc and up = "Response 200 (Inr [])"]
    miss up zone
  show ?thesis
    by (simp add: utc_url_example utc_date_example) blast
qed

text \<open>
  The claim as stated fails where the local offset changes within the 24 hours: in the
  zone of the example, a fetch on 2026-11-01 at 23:30 local time is answered with a feed
  dated November 1, 2026, the calendar day of the fetch itself.
\<close>

theorem wiki_fetch_same_day_counterexample:
  "map_sum errorText date
     (fst (wiki_fetch exampleCommon easternZone newServiceWikiNews 1793593800000
        (Response 200 (Inr [])))) = Inr (js ''November 1, 2026'') \<and>
   formattedDate easternZone 1793593800000 = js ''November 1, 2026'' \<and>
   localDay easternZone (1793593800000 - msPerDay) = localDay easternZone 1793593800000"
proof -
  have "fst (wiki_fetch exampleCommon easternZone newServiceWikiNews 1793593800000
          (Response 200 (Inr []))) =
        Inr \<lparr>date = formattedDate easternZone (1793593800000 - msPerDay),
             news = extractNewsContent [],
             source_url = wikiUrl easternZone (1793593800000 - msPerDay),
             updated = localeTime exampleCommon 1793593800000,
             updated_at = 1793593800000\<rparr>"
    by (simp add: wiki_fetch_def newServiceWikiNews_def wiki_refresh_def wiki_try_def ok_200
        msPerDay_def Let_def)
  then show ?thesis
    by (simp add: eastern_date_before eastern_date_of_fetch eastern_day_before eastern_day_of_fetch)
qed

section \<open>Links and annotations\<close>

lemmas pattern_defs = js_def match_here_def listItemRegex_def externalLinkRegex_def linkRegex_def
  ulRegex_def liRegex_def tagRegex_def spacesRegex_def bulletBulletRegex_def colonBulletRegex_def
  spacesColonRegex_def spacesDotRegex_def chr_gt_def chr_lt_def chr_quote_def bullet_def
  ndash_def mdash_def isSpace_def isLineTerminator_def

lemmas replace_defs = matches_g.simps js_replace_def js_replace_cb_def

lemma linkCallback_links:
  "snd (linkCallback links m caps) =
     (if cap 0 caps = [] \<or> cap 1 caps = [] \<or> annotation caps \<in> set links then links
      else links @ [annotation caps])"
  by (simp add: linkCallback_def annotation_def absoluteUrl_def origin_def Let_def)

lemma labelled_Nil: "labelled [] = {}"
  by (simp add: labelled_def)

lemma labelled_Cons:
  "labelled ((pre, m, caps) # ms) =
     (if cap 0 caps \<noteq> [] \<and> cap 1 caps \<noteq> [] then insert caps (labelled ms) else labelled ms)"
  by (auto simp: labelled_def)

lemma replace_loop_link_set:
  "set (snd (replace_loop linkCallback links ms after)) = set links \<union> annotation ` labelled ms"
proof (induction ms arbitrary: links)
  case Nil
  then show ?case by (simp add: labelled_Nil)
next
  case (Cons x ms)
  obtain pre m caps where x: "x = (pre, m, caps)" by (cases x)
  obtain rep links' where cb: "linkCallback links m caps = (rep, links')"
    by (cases "linkCallback links m caps")
  then have l: "links' = snd (linkCallback links m caps)" by simp
  have "set (snd (replace_loop linkCallback links (x # ms) after)) =
        set (snd (replace_loop linkCallback links' ms after))"
    by (simp add: x cb split: prod.splits)
  also have "\<dots> = set links' \<union> annotation ` labelled ms"
    by (rule Cons.IH)
  also have "\<dots> = set links \<union> annotation ` labelled (x # ms)"
    unfolding l x linkCallback_links labelled_Cons by auto
  finally show ?case .
qed

lemma replace_loop_link_distinct:
  "distinct links \<Longrightarrow> distinct (snd (replace_loop linkCallback links ms after))"
proof (induction ms arbitrary: links)
  case Nil
  then show ?case by simp
next
  case (Cons x ms)
  obtain pre m caps where x: "x = (pre, m, caps)" by (cases x)
  obtain rep links' where cb: "linkCallback links m caps = (rep, links')"
    by (cases "linkCallback links m caps")
  then have "links' = snd (linkCallback links m caps)" by simp
  with Cons.prems have "distinct links'" by (simp add: linkCallback_links)
  from Cons.IH [OF this] show ?case by (auto simp: x cb split: prod.splits)
qed

lemma ordinary_links_distinct: "distinct (snd (js_replace_cb linkRegex linkCallback [] html))"
  by (simp add: js_replace_cb_def replace_loop_link_distinct split: prod.splits)

lemma labelled_labelledCaptures: "labelled ms = set (labelledCaptures ms)"
  by (force simp: labelled_def labelledCaptures_def)

lemma replace_loop_external:
  "replace_loop externalLinkCallback acc ms after =
     (concat (map (\<lambda>(pre, m, caps). pre) ms) @ after,
      acc @ map externalAnnotation (labelledCaptures ms))"
proof (induction ms arbitrary: acc)
  case Nil
  then show ?case by (simp add: labelledCaptures_def)
next
  case (Cons x ms)
  obtain pre m caps where x: "x = (pre, m, caps)" by (cases x)
  have cb: "externalLinkCallback acc m caps =
      ([], acc @ map externalAnnotation (labelledCaptures [(pre, m, caps)]))"
    by (simp add: externalLinkCallback_def externalAnnotation_def labelledCaptures_def Let_def)
  have split: "labelledCaptures ((pre, m, caps) # ms) =
      labelledCaptures [(pre, m, caps)] @ labelledCaptures ms"
    by (simp add: labelledCaptures_def)
  show ?case
    unfolding x by (simp add: cb Cons.IH split)
qed

lemma external_pass:
  "js_replace_cb externalLinkRegex externalLinkCallback [] html =
     (textWithout externalLinkRegex html,
      map externalAnnotation (labelledCaptures (fst (matches_g externalLinkRegex html))))"
  by (simp add: js_replace_cb_def textWithout_def replace_loop_external split: prod.splits)

lemma replace_loop_markdown:
  "fst (replace_loop markdownLinkCallback u ms after) =
     concat (map (\<lambda>(pre, m, caps). pre @ markdownLink m caps) ms) @ after"
proof (induction ms)
  case Nil
  then show ?case by simp
next
  case (Cons x ms)
  obtain pre m caps where x: "x = (pre, m, caps)" by (cases x)
  have cb: "markdownLinkCallback () m caps = (markdownLink m caps, ())"
    by (simp add: markdownLinkCallback_def markdownLink_def absoluteUrl_def origin_def Let_def)
  from Cons.IH show ?case
    unfolding x by (auto simp: cb split: prod.splits)
qed

lemma markdown_pass: "fst (js_replace_cb linkRegex markdownLinkCallback () html) = markdownRendered html"
  by (simp add: js_replace_cb_def markdownRendered_def replace_loop_markdown split: prod.splits)

text \<open>
  The two passes on the markup of one anchor: how the matcher walks through it, and that
  the external-anchor pattern finds nothing where \<open>class="external\<close> does not occur.
\<close>

lemma star_lazy_blocked:
  "\<forall>y \<in> set u. \<not> isSpace y \<Longrightarrow> \<not> isSpace x \<Longrightarrow> \<not> cmatch c x \<Longrightarrow>
   star_lazy c (rmatch (Plus Space) k) (u @ x # rest) caps = None"
  by (induction u) auto

lemma star_greedy_through:
  "\<forall>y \<in> set u. cmatch c y \<Longrightarrow> star_greedy c k s caps = Some r \<Longrightarrow>
   star_greedy c k (u @ s) caps = Some r"
  by (induction u) auto

lemma star_greedy_stop: "\<not> cmatch c x \<Longrightarrow> star_greedy c k (x # rest) caps = k (x # rest) caps"
  by simp

lemma star_lazy_through:
  "\<forall>y \<in> set u. cmatch c y \<Longrightarrow>
   (\<forall>v w. u = v @ w \<longrightarrow> w \<noteq> [] \<longrightarrow> k (w @ s) caps = None) \<Longrightarrow>
   star_lazy c k (u @ s) caps = star_lazy c k s caps"
proof (induction u)
  case Nil
  then show ?case by simp
next
  case (Cons y u)
  from Cons.prems(2) have here: "k ((y # u) @ s) caps = None"
    by (metis append_Nil list.distinct(1))
  from Cons.prems(2) have later: "\<forall>v w. u = v @ w \<longrightarrow> w \<noteq> [] \<longrightarrow> k (w @ s) caps = None"
    by (metis append_Cons)
  from Cons.prems(1) have "cmatch c y" "\<forall>y \<in> set u. cmatch c y" by simp_all
  with Cons.IH later here show ?case by simp
qed

lemma star_lazy_here: "k s caps = Some r \<Longrightarrow> star_lazy c k s caps = Some r"
  by (cases s) simp_all

lemma anchor_match:
  assumes h: "chr_quote \<notin> set h" "\<forall>x \<in> set h. \<not> isSpace x" "chr_gt \<notin> set h"
    and t: "chr_lt \<notin> set t" "\<forall>x \<in> set t. \<not> isLineTerminator x"
  shows "match_here linkRegex (anchor h t) = Some ([], [h, t])"
proof -
  let ?K = "\<lambda>rest caps. Some (rest, caps) :: (jstring \<times> jstring list) option"
  let ?s5 = "t @ js ''</a>''"
  let ?k5 = "\<lambda>s' caps'. rmatch (Seq [Lit (js ''</a>'')]) ?K s' (caps' @ [take (length ?s5 - length s') ?s5])"
  have lazy: "star_lazy Dot ?k5 ?s5 [h] = Some ([], [h, t])"
  proof -
    have stop: "\<forall>v w. t = v @ w \<longrightarrow> w \<noteq> [] \<longrightarrow> ?k5 (w @ js ''</a>'') [h] = None"
    proof (intro allI impI)
      fix v w assume "t = v @ w" "w \<noteq> []"
      then obtain x w' where "w = x # w'" "x \<in> set t" by (cases w) auto
      with t(1) have "x \<noteq> chr_lt" by auto
      with \<open>w = x # w'\<close> show "?k5 (w @ js ''</a>'') [h] = None"
        by (simp add: js_def chr_lt_def)
    qed
    from t(2) have dots: "\<forall>y \<in> set t. cmatch Dot y" by simp
    have "star_lazy Dot ?k5 ?s5 [h] = star_lazy Dot ?k5 (js ''</a>'') [h]"
      by (rule star_lazy_through) (use dots stop in blast)+
    also have "\<dots> = Some ([], [h, t])"
      by (rule star_lazy_here) simp
    finally show ?thesis .
  qed
  let ?s3 = "h @ js ''\">'' @ t @ js ''</a>''"
  let ?k3 = "rmatch (Seq [Lit (js ''\"''), Star (Except chr_gt), Lit (js ''>''), Grp (StarLazy Dot),
                Lit (js ''</a>'')]) ?K"
  let ?k3' = "\<lambda>s' caps'. ?k3 s' (caps' @ [take (length ?s3 - length s') ?s3])"
  have tail: "?k3 (js ''\">'' @ t @ js ''</a>'') [h] = Some ([], [h, t])"
    using lazy by (simp add: js_def chr_gt_def cong: if_cong)
  have greedy: "star_greedy (Except chr_quote) ?k3' ?s3 [] = Some ([], [h, t])"
  proof -
    have "star_greedy (Except chr_quote) ?k3' (js ''\">'' @ t @ js ''</a>'') [] =
          ?k3' (js ''\">'' @ t @ js ''</a>'') []"
      by (simp add: js_def chr_quote_def)
    also have "\<dots> = ?k3 (js ''\">'' @ t @ js ''</a>'') [h]" by simp
    also note tail
    finally have inner: "star_greedy (Except chr_quote) ?k3' (js ''\">'' @ t @ js ''</a>'') [] =
        Some ([], [h, t])" .
    from h(1) have quotes: "\<forall>y \<in> set h. cmatch (Except chr_quote) y" by auto
    show ?thesis
      by (rule star_greedy_through) (use quotes inner in blast)+
  qed
  let ?s2 = "js ''href=\"'' @ ?s3"
  let ?k2 = "rmatch (Seq [Lit (js ''href=\"''), Grp (Star (Except chr_quote)), Lit (js ''\"''),
                Star (Except chr_gt), Lit (js ''>''), Grp (StarLazy Dot), Lit (js ''</a>'')]) ?K"
  have direct: "?k2 ?s2 [] = Some ([], [h, t])"
    using greedy by (simp cong: if_cong)
  have group: "rmatch (Seq [StarLazy (Except chr_gt), Plus Space]) ?k2 ?s2 [] = None"
  proof -
    have "?s2 = (js ''href=\"'' @ h @ js ''\"'') @ chr_gt # (t @ js ''</a>'')"
      by (simp add: js_def chr_gt_def)
    moreover have "\<forall>y \<in> set (js ''href=\"'' @ h @ js ''\"''). \<not> isSpace y"
      using h(2) by (auto simp: js_def isSpace_def)
    moreover have "\<not> isSpace chr_gt" "\<not> cmatch (Except chr_gt) chr_gt"
      by (simp_all add: isSpace_def chr_gt_def)
    ultimately show ?thesis
      using star_lazy_blocked [of "js ''href=\"'' @ h @ js ''\"''" chr_gt "Except chr_gt" ?k2 "t @ js ''</a>''" "[]"]
      by simp
  qed
  have "match_here linkRegex (anchor h t) = rmatch (Opt (Seq [StarLazy (Except chr_gt), Plus Space])) ?k2 ?s2 []"
    by (simp add: match_here_def linkRegex_def anchor_def js_def isSpace_def)
  also have "\<dots> = ?k2 ?s2 []"
    using group by simp
  also note direct
  finally show ?thesis .
qed


lemma search_None:
  "(\<And>t. suffix t s \<Longrightarrow> match_here r t = None) \<Longrightarrow> search r pre s = None"
proof (induction s arbitrary: pre)
  case Nil
  then show ?case by simp
next
  case (Cons x xs)
  have "match_here r (x # xs) = None" by (rule Cons.prems) simp
  moreover have "search r (pre @ [x]) xs = None"
    by (rule Cons.IH) (simp add: Cons.prems suffix_ConsI)
  ultimately show ?case by simp
qed

lemma fourth_literal:
  assumes "rmatch (Seq (r1 # r2 # r3 # Lit l # rs)) k s caps = Some res"
  shows "sublist l s"
proof -
  from assms have "rmatch r1 (rmatch (Seq (r2 # r3 # Lit l # rs)) k) s caps = Some res" by simp
  from rmatch_suffix [OF this] obtain s1 c1
    where 1: "suffix s1 s" "rmatch (Seq (r2 # r3 # Lit l # rs)) k s1 c1 = Some res" by blast
  from 1(2) have "rmatch r2 (rmatch (Seq (r3 # Lit l # rs)) k) s1 c1 = Some res" by simp
  from rmatch_suffix [OF this] obtain s2 c2
    where 2: "suffix s2 s1" "rmatch (Seq (r3 # Lit l # rs)) k s2 c2 = Some res" by blast
  from 2(2) have "rmatch r3 (rmatch (Seq (Lit l # rs)) k) s2 c2 = Some res" by simp
  from rmatch_suffix [OF this] obtain s3 c3
    where 3: "suffix s3 s2" "rmatch (Seq (Lit l # rs)) k s3 c3 = Some res" by blast
  from 3(2) have "prefix l s3" by (auto split: if_splits)
  then have "sublist l s3" by simp
  with 3(1) 2(1) 1(1) show ?thesis
    by (meson suffix_imp_sublist sublist_order.order.trans)
qed

lemma external_pattern_none:
  assumes "\<not> sublist (js ''class=\"external'') s"
  shows "matches_g externalLinkRegex s = ([], s)"
proof -
  have "search externalLinkRegex [] s = None"
  proof (rule search_None)
    fix t assume suf: "suffix t s"
    show "match_here externalLinkRegex t = None"
    proof (rule ccontr)
      assume "match_here externalLinkRegex t \<noteq> None"
      then obtain res where "match_here externalLinkRegex t = Some res" by auto
      then have "sublist (js ''class=\"external'') t"
        unfolding match_here_def externalLinkRegex_def by (rule fourth_literal)
      with suf assms show False
        by (meson suffix_imp_sublist sublist_order.order.trans)
    qed
  qed
  then show ?thesis by (rule matches_g_no_match)
qed

lemma anchor_matches:
  assumes "chr_quote \<notin> set h" "\<forall>x \<in> set h. \<not> isSpace x" "chr_gt \<notin> set h"
    and "chr_lt \<notin> set t" "\<forall>x \<in> set t. \<not> isLineTerminator x"
  shows "matches_g linkRegex (anchor h t) = ([([], anchor h t, [h, t])], [])"
proof -
  have ne: "anchor h t \<noteq> []" by (simp add: anchor_def js_def)
  then obtain x xs where c: "anchor h t = x # xs" by (cases "anchor h t") auto
  have "search linkRegex [] (anchor h t) = Some ([], anchor h t, [h, t], [])"
    using anchor_match [OF assms] unfolding c by simp
  moreover have "matches_g linkRegex [] = ([], [])"
    by (simp add: matches_g.simps match_here_def linkRegex_def js_def)
  ultimately show ?thesis
    using ne by (simp add: matches_g.simps [of linkRegex "anchor h t"])
qed

lemma anchor_processItemLinks:
  assumes "chr_quote \<notin> set h" "\<forall>x \<in> set h. \<not> isSpace x" "chr_gt \<notin> set h" "h \<noteq> []"
    and "chr_lt \<notin> set t" "\<forall>x \<in> set t. \<not> isLineTerminator x" "t \<noteq> []"
    and "\<not> sublist (js ''class=\"external'') (anchor h t)"
  shows "processItemLinks (anchor h t) = (t, [t @ js '' ('' @ absoluteUrl h @ js '')''])"
proof -
  have ext: "js_replace_cb externalLinkRegex externalLinkCallback [] (anchor h t) = (anchor h t, [])"
    by (simp add: js_replace_cb_def external_pattern_none [OF assms(8)])
  have ord: "js_replace_cb linkRegex linkCallback [] (anchor h t) =
      (t, [t @ js '' ('' @ absoluteUrl h @ js '')''])"
    using assms(4,7)
    by (simp add: js_replace_cb_def anchor_matches [OF assms(1,2,3,5,6)] linkCallback_def
        absoluteUrl_def origin_def Let_def)
  show ?thesis by (simp add: processItemLinks_def ext ord)
qed

lemma anchor_convertLinksToMarkdown:
  assumes "chr_quote \<notin> set h" "\<forall>x \<in> set h. \<not> isSpace x" "chr_gt \<notin> set h" "chr_lt \<notin> set h"
    and "chr_lt \<notin> set t" "\<forall>x \<in> set t. \<not> isLineTerminator x"
    and "\<not> sublist (js ''class=\"external'') (anchor h t)"
  shows "convertLinksToMarkdown (anchor h t) = js ''['' @ t @ js '']('' @ absoluteUrl h @ js '')''"
proof -
  let ?out = "js ''['' @ t @ js '']('' @ absoluteUrl h @ js '')''"
  have first: "js_replace_cb linkRegex markdownLinkCallback () (anchor h t) = (?out, ())"
    using assms(7)
    by (simp add: js_replace_cb_def anchor_matches [OF assms(1,2,3,5,6)] markdownLinkCallback_def
        absoluteUrl_def origin_def Let_def)
  have "chr_lt \<notin> set ?out"
    using assms(4,5) by (auto simp: absoluteUrl_def js_def chr_lt_def)
  moreover have "chr_lt \<in> set (js ''<a'')"
    by (simp add: js_def chr_lt_def)
  ultimately have "\<not> sublist (js ''<a'') ?out"
    using set_mono_sublist by blast
  then have "search externalLinkRegex [] ?out = None"
    unfolding externalLinkRegex_def by (rule search_Lit_head_None)
  then have second: "js_replace_cb externalLinkRegex markdownExternalCallback () ?out = (?out, ())"
    by (simp add: js_replace_cb_def matches_g_no_match)
  show ?thesis by (simp add: convertLinksToMarkdown_def first second)
qed

text \<open>
  C7, as amended. In \<open>#processItemLinks\<close> the annotations are those of the ordinary
  anchors followed by those of the external anchors. An ordinary anchor is a match of the
  ordinary-anchor pattern in the text that is left when the matches of the
  external-anchor pattern (an anchor with \<open>class="external\<close> in front of its \<open>href\<close>)
  are taken out; with a non-empty target and label it is annotated \<open>Label (url)\<close>,
  where the url is the target with \<open>https://en.wikipedia.org\<close> in front when the target
  starts with \<open>/\<close> and the target unchanged otherwise, each annotation once, and nothing
  else is annotated there. A match of the external-anchor pattern with a non-empty target
  and label is annotated \<open>Label (href)\<close> with the target as written. In
  \<open>#convertLinksToMarkdown\<close> the first pass rewrites every match of the ordinary-anchor
  pattern to \<open>[Label](url)\<close> with the same url, unless the matched text holds
  \<open>class="external\<close>, which it leaves as it is. In particular an anchor
  \<open><a href="H">T</a>\<close> without \<open>class="external\<close>, whose target has no quote, white
  space, \<open><\<close> or \<open>>\<close> and whose label has no \<open><\<close> and no line break, both
  non-empty, is annotated \<open>T (url)\<close> and rendered \<open>[T](url)\<close>.
\<close>

theorem ordinary_anchor_absolute_url:
  "(\<exists>ordinary.
      snd (processItemLinks html) =
        ordinary @ map externalAnnotation (labelledCaptures (fst (matches_g externalLinkRegex html))) \<and>
      distinct ordinary \<and>
      set ordinary =
        annotation ` set (labelledCaptures (fst (matches_g linkRegex (textWithout externalLinkRegex html))))) \<and>
   convertLinksToMarkdown html =
     fst (js_replace_cb externalLinkRegex markdownExternalCallback () (markdownRendered html)) \<and>
   (chr_quote \<notin> set h \<and> (\<forall>x \<in> set h. \<not> isSpace x) \<and> chr_gt \<notin> set h \<and> chr_lt \<notin> set h \<and>
    h \<noteq> [] \<and> chr_lt \<notin> set t \<and> (\<forall>x \<in> set t. \<not> isLineTerminator x) \<and> t \<noteq> [] \<and>
    \<not> sublist (js ''class=\"external'') (anchor h t) \<longrightarrow>
      processItemLinks (anchor h t) = (t, [t @ js '' ('' @ absoluteUrl h @ js '')'']) \<and>
      convertLinksToMarkdown (anchor h t) = js ''['' @ t @ js '']('' @ absoluteUrl h @ js '')'')"
proof (intro conjI impI)
  let ?rest = "textWithout externalLinkRegex html"
  let ?ordinary = "snd (js_replace_cb linkRegex linkCallback [] ?rest)"
  have "snd (processItemLinks html) =
      ?ordinary @ map externalAnnotation (labelledCaptures (fst (matches_g externalLinkRegex html)))"
    by (simp add: processItemLinks_def external_pass split: prod.splits)
  moreover have "distinct ?ordinary"
    by (rule ordinary_links_distinct)
  moreover have "set ?ordinary = annotation ` set (labelledCaptures (fst (matches_g linkRegex ?rest)))"
    by (simp add: js_replace_cb_def replace_loop_link_set labelled_labelledCaptures split: prod.splits)
  ultimately show "\<exists>ordinary.
      snd (processItemLinks html) =
        ordinary @ map externalAnnotation (labelledCaptures (fst (matches_g externalLinkRegex html))) \<and>
      distinct ordinary \<and>
      set ordinary =
        annotation ` set (labelledCaptures (fst (matches_g linkRegex (textWithout externalLinkRegex html))))"
    by blast
next
  show "convertLinksToMarkdown html =
     fst (js_replace_cb externalLinkRegex markdownExternalCallback () (markdownRendered html))"
    by (simp add: convertLinksToMarkdown_def markdown_pass Let_def)
next
  assume a: "chr_quote \<notin> set h \<and> (\<forall>x \<in> set h. \<not> isSpace x) \<and> chr_gt \<notin> set h \<and> chr_lt \<notin> set h \<and>
    h \<noteq> [] \<and> chr_lt \<notin> set t \<and> (\<forall>x \<in> set t. \<not> isLineTerminator x) \<and> t \<noteq> [] \<and>
    \<not> sublist (js ''class=\"external'') (anchor h t)"
  then show "processItemLinks (anchor h t) = (t, [t @ js '' ('' @ absoluteUrl h @ js '')''])"
    by (intro anchor_processItemLinks) simp_all
  from a show "convertLinksToMarkdown (anchor h t) = js ''['' @ t @ js '']('' @ absoluteUrl h @ js '')''"
    by (intro anchor_convertLinksToMarkdown) simp_all
qed

lemma twoAnchors_matches:
  "fst (matches_g linkRegex twoAnchors) =
     [([], js ''<a href=\"/x\">L</a>'', [js ''/x'', js ''L'']),
      (js '' '', js ''<a href=\"http://y\">M</a>'', [js ''http://y'', js ''M''])]"
  by (simp add: twoAnchors_def pattern_defs replace_defs)

lemma twoAnchors_no_external: "matches_g externalLinkRegex twoAnchors = ([], twoAnchors)"
  by (simp add: twoAnchors_def pattern_defs replace_defs)

lemma twoAnchors_rendered:
  "markdownRendered twoAnchors = js ''[L](https://en.wikipedia.org/x) [M](http://y)''"
proof -
  have b: "matches_g linkRegex twoAnchors =
     ([([], js ''<a href=\"/x\">L</a>'', [js ''/x'', js ''L'']),
       (js '' '', js ''<a href=\"http://y\">M</a>'', [js ''http://y'', js ''M''])], [])"
    by (simp add: twoAnchors_def pattern_defs replace_defs)
  show ?thesis
    unfolding markdownRendered_def b
    by (simp add: markdownLink_def absoluteUrl_def js_def sublist_Cons_right)
qed

lemma twoAnchors_rendered_no_external:
  "js_replace_cb externalLinkRegex markdownExternalCallback ()
     (js ''[L](https://en.wikipedia.org/x) [M](http://y)'') =
     (js ''[L](https://en.wikipedia.org/x) [M](http://y)'', ())"
  by (simp add: pattern_defs replace_defs)

lemma twoAnchors_labelled:
  "annotation ` set (labelledCaptures (fst (matches_g linkRegex twoAnchors))) =
     {js ''L (https://en.wikipedia.org/x)'', js ''M (http://y)''}"
  unfolding twoAnchors_matches
  by (simp add: labelledCaptures_def annotation_def absoluteUrl_def js_def)

theorem ordinary_anchor_absolute_url_witness:
  "set (snd (processItemLinks twoAnchors)) =
     {js ''L (https://en.wikipedia.org/x)'', js ''M (http://y)''} \<and>
   convertLinksToMarkdown twoAnchors = js ''[L](https://en.wikipedia.org/x) [M](http://y)'' \<and>
   chr_quote \<notin> set (js ''/x'') \<and> \<not> list_ex isSpace (js ''/x'') \<and>
   chr_gt \<notin> set (js ''/x'') \<and> chr_lt \<notin> set (js ''/x'') \<and> js ''/x'' \<noteq> [] \<and>
   chr_lt \<notin> set (js ''L'') \<and> \<not> list_ex isLineTerminator (js ''L'') \<and> js ''L'' \<noteq> [] \<and>
   \<not> sublist (js ''class=\"external'') (anchor (js ''/x'') (js ''L'')) \<and>
   anchor (js ''/x'') (js ''L'') = js ''<a href=\"/x\">L</a>'' \<and>
   processItemLinks (js ''<a href=\"/x\">L</a>'') = (js ''L'', [js ''L (https://en.wikipedia.org/x)'']) \<and>
   convertLinksToMarkdown (js ''<a href=\"/x\">L</a>'') = js ''[L](https://en.wikipedia.org/x)''"
proof -
  have rest: "textWithout externalLinkRegex twoAnchors = twoAnchors"
    by (simp add: textWithout_def twoAnchors_no_external)
  have none: "labelledCaptures (fst (matches_g externalLinkRegex twoAnchors)) = []"
    by (simp add: twoAnchors_no_external labelledCaptures_def)
  have target: "chr_quote \<notin> set (js ''/x'')" "\<forall>x \<in> set (js ''/x''). \<not> isSpace x"
    "chr_gt \<notin> set (js ''/x'')" "chr_lt \<notin> set (js ''/x'')" "js ''/x'' \<noteq> []"
    by (simp_all add: js_def chr_quote_def chr_gt_def chr_lt_def isSpace_def)
  have label: "chr_lt \<notin> set (js ''L'')" "\<forall>x \<in> set (js ''L''). \<not> isLineTerminator x" "js ''L'' \<noteq> []"
    by (simp_all add: js_def chr_lt_def isLineTerminator_def)
  have plain: "\<not> sublist (js ''class=\"external'') (anchor (js ''/x'') (js ''L''))"
    by (simp add: anchor_def js_def sublist_Cons_right)
  have shape: "anchor (js ''/x'') (js ''L'') = js ''<a href=\"/x\">L</a>''"
    by (simp add: anchor_def js_def)
  have url: "js ''L'' @ js '' ('' @ absoluteUrl (js ''/x'') @ js '')'' = js ''L (https://en.wikipedia.org/x)''"
    "js ''['' @ js ''L'' @ js '']('' @ absoluteUrl (js ''/x'') @ js '')'' = js ''[L](https://en.wikipedia.org/x)''"
    by (simp_all add: absoluteUrl_def js_def)
  from ordinary_anchor_absolute_url [where html = twoAnchors and h = "js ''/x''" and t = "js ''L''"]
    target label plain
  show ?thesis
    unfolding rest none twoAnchors_labelled twoAnchors_rendered twoAnchors_rendered_no_external
      shape url
    by (auto simp: list_ex_iff)
qed

text \<open>
  The claim as stated fails for an anchor that the external-anchor pattern matches (its
  relative target is recorded as written), for an anchor with \<open>class="external\<close> behind
  its target in the markdown version (the tag is left as it is), for an anchor with an
  empty label or an empty target, and for an anchor that the pattern does not match, such
  as one whose label runs over two lines (no annotation at all).
\<close>

lemma external_relative_links:
  "processItemLinks (js ''<a class=\"external\" href=\"/x\">L</a>'') = ([], [js ''L (/x)''])"
  by (simp add: processItemLinks_def pattern_defs replace_defs externalLinkCallback_def)

lemma external_relative_markdown:
  "convertLinksToMarkdown (js ''<a class=\"external\" href=\"/x\">L</a>'') = js ''[(L)](/x)''"
proof -
  have a: "js_replace_cb linkRegex markdownLinkCallback () (js ''<a class=\"external\" href=\"/x\">L</a>'') =
       (js ''<a class=\"external\" href=\"/x\">L</a>'', ())"
    by (simp add: pattern_defs replace_defs markdownLinkCallback_def sublist_Cons_right)
  have b: "js_replace_cb externalLinkRegex markdownExternalCallback ()
        (js ''<a class=\"external\" href=\"/x\">L</a>'') = (js ''[(L)](/x)'', ())"
    by (simp add: pattern_defs replace_defs markdownExternalCallback_def)
  show ?thesis by (simp add: convertLinksToMarkdown_def a b)
qed

lemma emptyLabel_links: "processItemLinks emptyLabel = ([], [])"
  by (simp add: emptyLabel_def processItemLinks_def pattern_defs replace_defs linkCallback_def)

lemma emptyTarget_links: "processItemLinks emptyTarget = (js ''L'', [])"
  by (simp add: emptyTarget_def processItemLinks_def pattern_defs replace_defs linkCallback_def)

lemma twoLineLabel_links: "processItemLinks twoLineLabel = (twoLineLabel, [])"
  by (simp add: twoLineLabel_def processItemLinks_def pattern_defs replace_defs)

lemma externalAfterTarget_links:
  "processItemLinks externalAfterTarget = (js ''E'', [js ''E (https://en.wikipedia.org/e)''])"
  by (simp add: externalAfterTarget_def processItemLinks_def pattern_defs replace_defs
      linkCallback_def origin_def)

lemma externalAfterTarget_markdown: "convertLinksToMarkdown externalAfterTarget = externalAfterTarget"
proof -
  have a: "js_replace_cb linkRegex markdownLinkCallback () externalAfterTarget = (externalAfterTarget, ())"
    by (simp add: externalAfterTarget_def pattern_defs replace_defs markdownLinkCallback_def
        sublist_Cons_right)
  have b: "js_replace_cb externalLinkRegex markdownExternalCallback () externalAfterTarget =
      (externalAfterTarget, ())"
    by (simp add: externalAfterTarget_def pattern_defs replace_defs)
  show ?thesis by (simp add: convertLinksToMarkdown_def a b)
qed

theorem external_relative_href_counterexample:
  "snd (processItemLinks (js ''<a class=\"external\" href=\"/x\">L</a>'')) = [js ''L (/x)''] \<and>
   js ''L (https://en.wikipedia.org/x)'' \<notin>
     set (snd (processItemLinks (js ''<a class=\"external\" href=\"/x\">L</a>''))) \<and>
   convertLinksToMarkdown (js ''<a class=\"external\" href=\"/x\">L</a>'') = js ''[(L)](/x)'' \<and>
   convertLinksToMarkdown externalAfterTarget = externalAfterTarget \<and>
   snd (processItemLinks emptyLabel) = [] \<and>
   snd (processItemLinks emptyTarget) = [] \<and>
   snd (processItemLinks twoLineLabel) = []"
  unfolding external_relative_links external_relative_markdown externalAfterTarget_markdown
    emptyLabel_links emptyTarget_links twoLineLabel_links
  by (simp add: js_def)

lemma duplicate_matches:
  "map (\<lambda>(pre, m, caps). caps) (fst (matches_g listItemRegex (js ''<li>'' @ duplicateItem @ js ''</li>''))) =
     [[duplicateItem]]"
  by (simp add: duplicateItem_def pattern_defs replace_defs)

lemma duplicate_trim: "trim duplicateItem = duplicateItem"
  by (simp add: duplicateItem_def trim_def pattern_defs)

lemma duplicate_externals:
  "js_replace_cb externalLinkRegex externalLinkCallback [] duplicateItem =
     (js ''<a href=\"/x\">X</a> '', [js ''B (http://b)'', js ''B (http://b)''])"
  by (simp add: duplicateItem_def pattern_defs replace_defs externalLinkCallback_def)

lemma duplicate_links:
  "js_replace_cb linkRegex linkCallback [] (js ''<a href=\"/x\">X</a> '') =
     (js ''X '', [js ''X (https://en.wikipedia.org/x)''])"
  by (simp add: pattern_defs replace_defs linkCallback_def origin_def)

lemma duplicate_processItemLinks:
  "processItemLinks duplicateItem =
     (js ''X '', [js ''X (https://en.wikipedia.org/x)'', js ''B (http://b)'', js ''B (http://b)''])"
  by (simp add: processItemLinks_def duplicate_externals duplicate_links)

lemma clean_X: "cleanHtml (js ''X '') = js ''X''"
proof -
  have a: "listMarkers (js ''X '') = js ''X ''"
    by (simp add: listMarkers_def pattern_defs replace_defs)
  have b: "js_replace tagRegex (\<lambda>caps. []) (js ''X '') = js ''X ''"
    by (simp add: pattern_defs replace_defs)
  have c: "decodeEntities (js ''X '') = js ''X ''"
    by (simp add: decodeEntities_def pattern_defs replace_defs)
  have d: "tidySpaces (js ''X '') = js ''X''"
    by (simp add: tidySpaces_def trim_def pattern_defs replace_defs)
  show ?thesis by (simp add: cleanHtml_def a b c d)
qed


lemma duplicate_final_trim:
  "trim (js ''X [X (https://en.wikipedia.org/x), B (http://b), B (http://b)]'') =
     js ''X [X (https://en.wikipedia.org/x), B (http://b), B (http://b)]''"
  by (simp add: trim_def pattern_defs)

lemma duplicate_join:
  "js ''X'' @ js '' ['' @ js ''X (https://en.wikipedia.org/x)'' @ js '', '' @ js ''B (http://b)'' @
     js '', '' @ js ''B (http://b)'' @ js '']'' =
     js ''X [X (https://en.wikipedia.org/x), B (http://b), B (http://b)]''"
  by (simp add: js_def)

lemma duplicate_nonempty: "duplicateItem \<noteq> []"
  by (simp add: duplicateItem_def js_def)

lemma duplicate_itemStep:
  "itemStep [] [duplicateItem] =
     [\<lparr>item_text = js ''X [X (https://en.wikipedia.org/x), B (http://b), B (http://b)]''\<rparr>]"
proof -
  have ne: "js ''X [X (https://en.wikipedia.org/x), B (http://b), B (http://b)]'' \<noteq> []"
    by (simp add: js_def)
  show ?thesis
    unfolding itemStep_def Let_def
    by (simp add: duplicate_nonempty duplicate_trim duplicate_processItemLinks clean_X
        duplicate_join duplicate_final_trim ne)
qed

text \<open>
  C2. An item with an ordinary anchor and the same external anchor twice: the ordinary
  annotations are free of duplicates, the external ones are appended as they come, and
  the annotation list of the item repeats \<open>B (http://b)\<close>.
\<close>

theorem external_annotations_not_deduplicated:
  "extractCategoryItems (js ''<li>'' @ duplicateItem @ js ''</li>'') (js ''Sports'') =
     [\<lparr>item_text = js ''X [X (https://en.wikipedia.org/x), B (http://b), B (http://b)]''\<rparr>] \<and>
   snd (processItemLinks duplicateItem) =
     [js ''X (https://en.wikipedia.org/x)'', js ''B (http://b)'', js ''B (http://b)''] \<and>
   \<not> distinct (snd (processItemLinks duplicateItem))"
  by (simp add: extractCategoryItems_def extractCategoryItems_try_def duplicate_matches
      duplicate_itemStep duplicate_processItemLinks)

section \<open>Nested lists\<close>

lemma nested_matches:
  "map (\<lambda>(pre, m, caps). caps) (fst (matches_g listItemRegex nestedList)) =
     [[js ''Parent<ul><li>A''], [js ''B'']]"
  by (simp add: nestedList_def pattern_defs replace_defs)

lemma nested_first_links: "processItemLinks (js ''Parent<ul><li>A'') = (js ''Parent<ul><li>A'', [])"
  by (simp add: processItemLinks_def pattern_defs replace_defs)

lemma nested_second_links: "processItemLinks (js ''B'') = (js ''B'', [])"
  by (simp add: processItemLinks_def pattern_defs replace_defs)

lemma nested_first_clean: "cleanHtml (js ''Parent<ul><li>A'') = js ''ParentA''"
proof -
  have a: "listMarkers (js ''Parent<ul><li>A'') = js ''Parent<ul><li>A''"
    by (simp add: listMarkers_def pattern_defs replace_defs)
  have b: "js_replace tagRegex (\<lambda>caps. []) (js ''Parent<ul><li>A'') = js ''ParentA''"
    by (simp add: pattern_defs replace_defs)
  have c: "decodeEntities (js ''ParentA'') = js ''ParentA''"
    by (simp add: decodeEntities_def pattern_defs replace_defs)
  have d: "tidySpaces (js ''ParentA'') = js ''ParentA''"
    by (simp add: tidySpaces_def trim_def pattern_defs replace_defs)
  show ?thesis by (simp add: cleanHtml_def a b c d)
qed

lemma nested_second_clean: "cleanHtml (js ''B'') = js ''B''"
proof -
  have a: "listMarkers (js ''B'') = js ''B''"
    by (simp add: listMarkers_def pattern_defs replace_defs)
  have b: "js_replace tagRegex (\<lambda>caps. []) (js ''B'') = js ''B''"
    by (simp add: pattern_defs replace_defs)
  have c: "decodeEntities (js ''B'') = js ''B''"
    by (simp add: decodeEntities_def pattern_defs replace_defs)
  have d: "tidySpaces (js ''B'') = js ''B''"
    by (simp add: tidySpaces_def trim_def pattern_defs replace_defs)
  show ?thesis by (simp add: cleanHtml_def a b c d)
qed

lemma nested_trims:
  "trim (js ''Parent<ul><li>A'') = js ''Parent<ul><li>A''" "trim (js ''ParentA'') = js ''ParentA''"
  "trim (js ''B'') = js ''B''"
  by (simp_all add: trim_def pattern_defs)

lemma nested_first_step:
  "itemStep [] [js ''Parent<ul><li>A''] = [\<lparr>item_text = js ''ParentA''\<rparr>]"
proof -
  have ne: "js ''Parent<ul><li>A'' \<noteq> []" "js ''ParentA'' \<noteq> []" by (simp_all add: js_def)
  show ?thesis
    unfolding itemStep_def Let_def
    by (simp add: nested_trims nested_first_links nested_first_clean ne)
qed

lemma nested_second_step:
  "itemStep [\<lparr>item_text = js ''ParentA''\<rparr>] [js ''B''] =
     [\<lparr>item_text = js ''ParentA''\<rparr>, \<lparr>item_text = js ''B''\<rparr>]"
proof -
  have ne: "js ''B'' \<noteq> []" by (simp_all add: js_def)
  show ?thesis
    unfolding itemStep_def Let_def
    by (simp add: nested_trims nested_second_links nested_second_clean ne)
qed

lemma nested_listMarkers:
  "listMarkers (js ''Parent<ul><li>A</li><li>B</li></ul>'') =
     js ''Parent: '' @ [bullet] @ js '' A '' @ [bullet] @ js '' B ''"
  by (simp add: listMarkers_def pattern_defs replace_defs)

text \<open>
  C8. An item with a sub-list: the item pattern ends the item at the first \<open></li>\<close>, so
  the fragments handed to \<open>cleanHtml\<close> hold no complete \<open><ul>\<close> or \<open><li>\<close> element,
  no marker is written, and the items are \<open>ParentA\<close> and \<open>B\<close>. On the complete
  sub-list the markers are written.
\<close>

theorem nested_list_markers_lost:
  "extractCategoryItems nestedList (js ''Sports'') =
     [\<lparr>item_text = js ''ParentA''\<rparr>, \<lparr>item_text = js ''B''\<rparr>] \<and>
   listMarkers (js ''Parent<ul><li>A</li><li>B</li></ul>'') =
     js ''Parent: '' @ [bullet] @ js '' A '' @ [bullet] @ js '' B ''"
  by (simp add: extractCategoryItems_def extractCategoryItems_try_def nested_matches
      nested_first_step nested_second_step nested_listMarkers)

section \<open>Determinism of the extractor\<close>

text \<open>
  The loop over the items, started on any pattern object whose search index points at a
  suffix of the input, finds the matches of that suffix one after the other, ends, and
  leaves the index at 0.
\<close>

lemma itemLoop_matches:
  "consumes r \<Longrightarrow> suffix t s \<Longrightarrow>
   itemLoop \<lparr>pattern = r, lastIndex = length s - length t\<rparr> s found =
     Some (foldl itemStep found (map (\<lambda>(pre, m, caps). caps) (fst (matches_g r t))),
           \<lparr>pattern = r, lastIndex = 0\<rparr>)"
proof (induction r t arbitrary: found rule: matches_g.induct)
  case (1 r t)
  from "1.prems"(2) have d: "drop (length s - length t) s = t"
    by (auto simp: suffix_def)
  have le: "\<not> length s < length s - length t" by simp
  show ?case
  proof (cases "search r [] t")
    case None
    then show ?thesis
      by (subst itemLoop.simps) (simp add: exec_def d le matches_g_no_match)
  next
    case (Some a)
    obtain pre m caps rest where a: "a = (pre, m, caps, rest)" by (cases a)
    from Some a have found: "search r [] t = Some (pre, m, caps, rest)" by simp
    from search_consumes [OF "1.prems"(1) found] have shorter: "length rest < length t" .
    from search_decomp [OF found] have "suffix rest t" by (auto simp: suffix_def)
    with "1.prems"(2) have suf: "suffix rest s" by (meson suffix_order.trans)
    from "1.IH" [OF found refl refl refl shorter "1.prems"(1) suf, of "itemStep found caps"]
    have ih: "itemLoop \<lparr>pattern = r, lastIndex = length s - length rest\<rparr> s (itemStep found caps) =
        Some (foldl itemStep (itemStep found caps) (map (\<lambda>(pre, m, caps). caps) (fst (matches_g r rest))),
              \<lparr>pattern = r, lastIndex = 0\<rparr>)"
      by simp
    show ?thesis
      by (subst itemLoop.simps)
        (simp add: exec_def d le found ih matches_g_consumes [OF "1.prems"(1) found] split: prod.splits)
  qed
qed

lemma listItemRegex_consumes: "consumes listItemRegex"
  by (simp add: listItemRegex_def js_def)

lemma itemLoop_fresh:
  "itemLoop (newRegExp listItemRegex) s found =
     Some (foldl itemStep found (map (\<lambda>(pre, m, caps). caps) (fst (matches_g listItemRegex s))),
           newRegExp listItemRegex)"
  using itemLoop_matches [OF listItemRegex_consumes, of s s found]
  by (simp add: newRegExp_def)

lemma extractCategoryItems_run_eq:
  "extractCategoryItems_run s t = Some (extractCategoryItems s t)"
  by (simp add: extractCategoryItems_run_def itemLoop_fresh extractCategoryItems_def
      extractCategoryItems_try_def Let_def)

lemma sectionStep_run_eq: "sectionStep_run categories s = Some (sectionStep categories s)"
  by (simp add: sectionStep_run_def sectionStep_def extractCategoryItems_run_eq Let_def)

lemma sectionLoop_run_eq: "sectionLoop_run categories ss = Some (foldl sectionStep categories ss)"
  by (induction ss arbitrary: categories) (simp_all add: sectionStep_run_eq)

lemma extractNewsContent_run_eq: "extractNewsContent_run html = Some (extractNewsContent html)"
  by (simp add: extractNewsContent_run_def extractNewsContent_def extractNewsContent_try_def
      uncategorized_run_def collectCategories_def extractCategoryItems_run_eq sectionLoop_run_eq
      Let_def split: option.splits list.splits)

text \<open>
  C9. The extractor, run with the pattern object of its item loop as explicit state,
  returns for every input, and what it returns is the value of the function
  \<open>extractNewsContent\<close> at that input: two calls on the same input give the same
  categories, titles and item texts in the same order. The item loop starts each call on
  a new pattern object and hands it back as new, so that even a second run on the object
  that the first run leaves behind gives the same items.
\<close>

theorem extractNewsContent_deterministic:
  "extractNewsContent_run html = Some (extractNewsContent html) \<and>
   (itemLoop (newRegExp listItemRegex) sectionContent [] = Some (found, regex) \<longrightarrow>
      regex = newRegExp listItemRegex \<and>
      itemLoop regex sectionContent [] = Some (found, regex)) \<and>
   (html1 = html2 \<longrightarrow>
      extractNewsContent_run html1 = extractNewsContent_run html2 \<and>
      extractNewsContent_run html1 \<noteq> None)"
proof (intro conjI impI)
  show "extractNewsContent_run html = Some (extractNewsContent html)"
    by (rule extractNewsContent_run_eq)
next
  assume run: "itemLoop (newRegExp listItemRegex) sectionContent [] = Some (found, regex)"
  with itemLoop_fresh [of sectionContent "[]"] show new: "regex = newRegExp listItemRegex"
    by simp
  from run show "itemLoop regex sectionContent [] = Some (found, regex)"
    unfolding new by simp
next
  assume "html1 = html2"
  then show "extractNewsContent_run html1 = extractNewsContent_run html2"
    by simp
next
  show "extractNewsContent_run html1 \<noteq> None"
    by (simp add: extractNewsContent_run_eq)
qed

lemma oneItem_matches:
  "map (\<lambda>(pre, m, caps). caps) (fst (matches_g listItemRegex (js ''<li>B</li>''))) = [[js ''B'']]"
  by (simp add: pattern_defs replace_defs)

lemma oneItem_step: "itemStep [] [js ''B''] = [\<lparr>item_text = js ''B''\<rparr>]"
proof -
  have ne: "js ''B'' \<noteq> []" by (simp add: js_def)
  show ?thesis
    unfolding itemStep_def Let_def
    by (simp add: nested_trims nested_second_links nested_second_clean ne)
qed

text \<open>
  The state matters to the loop: on a pattern object that is not new, here one whose
  index was left at 1, the same input gives no item.
\<close>

lemma itemLoop_stale_object:
  "itemLoop \<lparr>pattern = listItemRegex, lastIndex = 1\<rparr> (js ''<li>B</li>'') [] =
     Some ([], newRegExp listItemRegex)"
proof -
  have suf: "suffix (js ''li>B</li>'') (js ''<li>B</li>'')"
    by (simp add: js_def suffix_Cons)
  have len: "length (js ''<li>B</li>'') - length (js ''li>B</li>'') = 1"
    by (simp add: js_def)
  have none: "fst (matches_g listItemRegex (js ''li>B</li>'')) = []"
    by (simp add: pattern_defs replace_defs)
  from itemLoop_matches [OF listItemRegex_consumes suf, of "[]"] show ?thesis
    by (simp add: len none newRegExp_def)
qed

theorem extractNewsContent_deterministic_witness:
  "itemLoop (newRegExp listItemRegex) (js ''<li>B</li>'') [] =
     Some ([\<lparr>item_text = js ''B''\<rparr>], newRegExp listItemRegex) \<and>
   js ''<p>none</p>'' = js ''<p>none</p>'' \<and>
   extractNewsContent_run (js ''<p>none</p>'') = Some (extractNewsContent (js ''<p>none</p>'')) \<and>
   itemLoop (newRegExp listItemRegex) (js ''<li>B</li>'') [] =
     Some ([\<lparr>item_text = js ''B''\<rparr>], newRegExp listItemRegex) \<and>
   extractNewsContent_run (js ''<p>none</p>'') \<noteq> None"
proof -
  have run: "itemLoop (newRegExp listItemRegex) (js ''<li>B</li>'') [] =
     Some ([\<lparr>item_text = js ''B''\<rparr>], newRegExp listItemRegex)"
    by (simp add: itemLoop_fresh oneItem_matches oneItem_step)
  from extractNewsContent_deterministic
    [where html = "js ''<p>none</p>''" and sectionContent = "js ''<li>B</li>''"
       and found = "[\<lparr>item_text = js ''B''\<rparr>]" and regex = "newRegExp listItemRegex"
       and ?html1.0 = "js ''<p>none</p>''" and ?html2.0 = "js ''<p>none</p>''"]
    run
  show ?thesis by simp
qed

end
